theory Spec2Isabelle
  imports Main "HOL-Library.AList"
begin

section \<open>Python values\<close>

text \<open>
  The streams of \<^verbatim>\<open>source_facebook_marketing/streams/streams.py\<close> exchange
  \<^verbatim>\<open>Mapping[str, Any]\<close> values with their caller: stream states, records and request
  parameters. A Python value is a \<open>pyval\<close>; a dict is an association list in insertion
  order with pairwise distinct keys, read with \<open>map_of\<close> and written with
  \<open>AList.update\<close>.
\<close>

datatype pyval =
    PNone
  | PBool bool
  | PInt int
  | PStr string
  | PList "pyval list"
  | PDict "(string \<times> pyval) list"

type_synonym pydict = "(string \<times> pyval) list"

datatype error =
    KeyError string
  | TypeError
  | ParserError string

text \<open>Truth value testing: \<^verbatim>\<open>not v\<close>, \<^verbatim>\<open>v or w\<close>, \<^verbatim>\<open>if v\<close>.\<close>

fun truthy :: "pyval \<Rightarrow> bool" where
  "truthy PNone = False"
| "truthy (PBool b) = b"
| "truthy (PInt n) = (n \<noteq> 0)"
| "truthy (PStr s) = (s \<noteq> [])"
| "truthy (PList vs) = (vs \<noteq> [])"
| "truthy (PDict kvs) = (kvs \<noteq> [])"

text \<open>\<^verbatim>\<open>v or w\<close> is \<open>v\<close> when \<open>v\<close> is true, and \<open>w\<close> otherwise.\<close>

definition py_or :: "pyval \<Rightarrow> pyval \<Rightarrow> pyval" where
  "py_or v w = (if truthy v then v else w)"

text \<open>\<^verbatim>\<open>d.get(k)\<close> and \<^verbatim>\<open>d.get(k, default)\<close>.\<close>

definition dict_get_default :: "pydict \<Rightarrow> string \<Rightarrow> pyval \<Rightarrow> pyval" where
  "dict_get_default d k dflt = (case map_of d k of None \<Rightarrow> dflt | Some v \<Rightarrow> v)"

definition dict_get :: "pydict \<Rightarrow> string \<Rightarrow> pyval" where
  "dict_get d k = dict_get_default d k PNone"

text \<open>\<^verbatim>\<open>d[k]\<close> raises \<^verbatim>\<open>KeyError\<close> on a missing key.\<close>

definition dict_item :: "pydict \<Rightarrow> string \<Rightarrow> error + pyval" where
  "dict_item d k = (case map_of d k of None \<Rightarrow> Inl (KeyError k) | Some v \<Rightarrow> Inr v)"

text \<open>
  \<^verbatim>\<open>str(v)\<close> of a \<^verbatim>\<open>str\<close> is the string itself. The one call of \<^verbatim>\<open>str\<close> on a
  record value in \<^verbatim>\<open>get_updated_state\<close> comes after \<^verbatim>\<open>pendulum.parse\<close> has accepted
  that value, which it does for strings only.
\<close>

fun py_str :: "pyval \<Rightarrow> string" where
  "py_str (PStr s) = s"
| "py_str _ = []"

section \<open>The date library\<close>

text \<open>
  The streams use four operations of the \<^verbatim>\<open>pendulum\<close> library on its \<^verbatim>\<open>DateTime\<close>
  values: \<^verbatim>\<open>pendulum.parse\<close> (which raises on text that is no timestamp),
  \<^verbatim>\<open>str\<close>, the property \<^verbatim>\<open>int_timestamp\<close>, and the comparison behind \<^verbatim>\<open>max\<close>, which
  orders two values by their position on the time line. The library is a parameter of the
  model: \<open>'dt\<close> is the type of its \<^verbatim>\<open>DateTime\<close> values.
\<close>

record 'dt pendulum =
  parse :: "string \<Rightarrow> 'dt option"
  isoformat :: "'dt \<Rightarrow> string"
  int_timestamp :: "'dt \<Rightarrow> int"
  instant :: "'dt \<Rightarrow> int"

text \<open>\<^verbatim>\<open>pendulum.parse(v)\<close>: a \<^verbatim>\<open>TypeError\<close> on a value that is no string.\<close>

fun pendulum_parse :: "'dt pendulum \<Rightarrow> pyval \<Rightarrow> error + 'dt" where
  "pendulum_parse P (PStr s) = (case parse P s of None \<Rightarrow> Inl (ParserError s) | Some d \<Rightarrow> Inr d)"
| "pendulum_parse P _ = Inl TypeError"

text \<open>
  \<^verbatim>\<open>max(a, b)\<close> keeps its first argument unless the second is strictly greater.
\<close>

definition py_max :: "'dt pendulum \<Rightarrow> 'dt \<Rightarrow> 'dt \<Rightarrow> 'dt" where
  "py_max P a b = (if instant P a < instant P b then b else a)"

section \<open>Streams\<close>

text \<open>The class attributes of \<^verbatim>\<open>FBMarketingStream\<close> and its subclasses.\<close>

record stream_class =
  entity_prefix :: "string option"
  enable_deleted :: bool
  use_batch :: bool
  page_size :: int

definition MAX_BATCH_SIZE :: nat where
  "MAX_BATCH_SIZE = 50"

definition cursor_field :: string where
  "cursor_field = ''updated_time''"

definition FBMarketingStream_class :: stream_class where
  "FBMarketingStream_class =
     \<lparr>entity_prefix = None, enable_deleted = False, use_batch = False, page_size = 100\<rparr>"

definition AdCreatives_class :: stream_class where
  "AdCreatives_class =
     \<lparr>entity_prefix = Some ''adcreative'', enable_deleted = False, use_batch = True, page_size = 100\<rparr>"

definition Ads_class :: stream_class where
  "Ads_class =
     \<lparr>entity_prefix = Some ''ad'', enable_deleted = True, use_batch = False, page_size = 100\<rparr>"

definition AdSets_class :: stream_class where
  "AdSets_class =
     \<lparr>entity_prefix = Some ''adset'', enable_deleted = True, use_batch = False, page_size = 100\<rparr>"

definition Campaigns_class :: stream_class where
  "Campaigns_class =
     \<lparr>entity_prefix = Some ''campaign'', enable_deleted = True, use_batch = False, page_size = 100\<rparr>"

definition Videos_class :: stream_class where
  "Videos_class =
     \<lparr>entity_prefix = Some ''video'', enable_deleted = True, use_batch = False, page_size = 100\<rparr>"

text \<open>
  An instance of \<^verbatim>\<open>FBMarketingStream\<close>: its class and \<^verbatim>\<open>self._include_deleted\<close>.
  An instance of \<^verbatim>\<open>FBMarketingIncrementalStream\<close> adds the two dates.
\<close>

record fb_stream =
  cls :: stream_class
  include_deleted :: bool

record 'dt inc_stream =
  base :: fb_stream
  start_date :: 'dt
  end_date :: 'dt

text \<open>\<^verbatim>\<open>FBMarketingStream.__init__\<close> and \<^verbatim>\<open>FBMarketingIncrementalStream.__init__\<close>.\<close>

definition FBMarketingStream_init :: "stream_class \<Rightarrow> bool \<Rightarrow> fb_stream" where
  "FBMarketingStream_init c incl =
     \<lparr>cls = c, include_deleted = (if enable_deleted c then incl else False)\<rparr>"

definition FBMarketingIncrementalStream_init ::
  "stream_class \<Rightarrow> 'dt \<Rightarrow> 'dt \<Rightarrow> bool \<Rightarrow> 'dt inc_stream" where
  "FBMarketingIncrementalStream_init c sd ed incl =
     \<lparr>base = FBMarketingStream_init c incl, start_date = sd, end_date = ed\<rparr>"

subsection \<open>State update\<close>

text \<open>\<^verbatim>\<open>FBMarketingIncrementalStream.get_updated_state\<close>.\<close>

definition get_updated_state ::
  "'dt pendulum \<Rightarrow> 'dt inc_stream \<Rightarrow> pydict \<Rightarrow> pydict \<Rightarrow> error + pydict" where
  "get_updated_state P s current_stream_state latest_record =
     (let potentially_new_records_in_the_past =
            (include_deleted (base s) \<and>
             \<not> truthy (dict_get_default current_stream_state ''include_deleted'' (PBool False)))
      in case dict_item latest_record cursor_field of
           Inl e \<Rightarrow> Inl e
         | Inr record_value \<Rightarrow>
            (let state_value = py_or (dict_get current_stream_state cursor_field) record_value
             in case pendulum_parse P state_value of
                  Inl e \<Rightarrow> Inl e
                | Inr a \<Rightarrow>
                   (case pendulum_parse P record_value of
                      Inl e \<Rightarrow> Inl e
                    | Inr b \<Rightarrow>
                       (let max_cursor =
                              (if potentially_new_records_in_the_past then py_str record_value
                               else isoformat P (py_max P a b))
                        in Inr [(cursor_field, PStr max_cursor),
                                (''include_deleted'', PBool (include_deleted (base s)))]))))"

subsection \<open>Request parameters\<close>

text \<open>
  An f-string renders the class attribute \<^verbatim>\<open>entity_prefix\<close>, which is \<^verbatim>\<open>None\<close> in the
  base class.
\<close>

definition format_prefix :: "string option \<Rightarrow> string" where
  "format_prefix p = (case p of None \<Rightarrow> ''None'' | Some x \<Rightarrow> x)"

text \<open>\<^verbatim>\<open>d.update(e)\<close> on dicts.\<close>

definition dict_update :: "pydict \<Rightarrow> pydict \<Rightarrow> pydict" where
  "dict_update d e = fold (\<lambda>kv. AList.update (fst kv) (snd kv)) e d"

text \<open>\<^verbatim>\<open>FBMarketingStream._filter_all_statuses\<close>.\<close>

definition filt_values :: "string list" where
  "filt_values =
     [''active'', ''archived'', ''completed'', ''limited'', ''not_delivering'', ''deleted'',
      ''not_published'', ''pending_review'', ''permanently_deleted'', ''recently_completed'',
      ''recently_rejected'', ''rejected'', ''scheduled'', ''inactive'']"

definition filter_all_statuses :: "fb_stream \<Rightarrow> pydict" where
  "filter_all_statuses s =
     [(''filtering'',
       PList [PDict [(''field'', PStr (format_prefix (entity_prefix (cls s)) @ ''.delivery_info'')),
                     (''operator'', PStr ''IN''),
                     (''value'', PList (map PStr filt_values))]])]"

text \<open>\<^verbatim>\<open>FBMarketingStream.request_params\<close>.\<close>

definition request_params :: "fb_stream \<Rightarrow> pydict" where
  "request_params s =
     (let params = [(''limit'', PInt (page_size (cls s)))]
      in if include_deleted s then dict_update params (filter_all_statuses s) else params)"

text \<open>
  \<^verbatim>\<open>FBMarketingIncrementalStream._state_filter\<close>. The message logged when the bookmark is
  ignored is no part of the returned mapping and is left out.
\<close>

definition state_filter :: "'dt pendulum \<Rightarrow> 'dt inc_stream \<Rightarrow> pydict \<Rightarrow> error + pydict" where
  "state_filter P s stream_state =
     (let state_value = dict_get stream_state cursor_field
      in case (if \<not> truthy state_value then Inr (start_date s) else pendulum_parse P state_value) of
           Inl e \<Rightarrow> Inl e
         | Inr parsed \<Rightarrow>
            (let potentially_new_records_in_the_past =
                   (include_deleted (base s) \<and>
                    \<not> truthy (dict_get_default stream_state ''include_deleted'' (PBool False)));
                 filter_value = (if potentially_new_records_in_the_past then start_date s else parsed)
             in Inr [(''filtering'',
                      PList [PDict [(''field'',
                                     PStr (format_prefix (entity_prefix (cls (base s))) @ ''.'' @ cursor_field)),
                                    (''operator'', PStr ''GREATER_THAN''),
                                    (''value'', PInt (int_timestamp P filter_value))]])]))"

text \<open>
  Modelled from the spec: \<^verbatim>\<open>deep_merge\<close> is imported from the module \<^verbatim>\<open>common\<close> of the
  connector, which is not among the sources. The specification says of the request
  parameters that \<^verbatim>\<open>filtering\<close> is an ordered list of filter clauses, that the status
  filter is merged into the base parameters, and that an incremental stream extends the
  base parameters with its clause. So two mappings are merged key by key, a key of both
  recursively; two lists are joined, the first one's elements first; any other pair
  gives the second value.
\<close>

fun deep_merge :: "pyval \<Rightarrow> pyval \<Rightarrow> pyval" where
  "deep_merge (PDict a) (PDict b) =
     PDict (map (\<lambda>kv. (fst kv, case map_of b (fst kv) of
                                  None \<Rightarrow> snd kv
                                | Some w \<Rightarrow> deep_merge (snd kv) w)) a
            @ filter (\<lambda>kv. map_of a (fst kv) = None) b)"
| "deep_merge (PList a) (PList b) = PList (a @ b)"
| "deep_merge a b = b"

text \<open>
  \<^verbatim>\<open>FBMarketingIncrementalStream.request_params\<close>; the state argument may be \<^verbatim>\<open>None\<close>
  (\<^verbatim>\<open>stream_state or {}\<close>).
\<close>

definition state_or_empty :: "pydict option \<Rightarrow> pydict" where
  "state_or_empty st = (case st of None \<Rightarrow> [] | Some d \<Rightarrow> if truthy (PDict d) then d else [])"

definition inc_request_params ::
  "'dt pendulum \<Rightarrow> 'dt inc_stream \<Rightarrow> pydict option \<Rightarrow> error + pyval" where
  "inc_request_params P s stream_state =
     (let params = request_params (base s)
      in case state_filter P s (state_or_empty stream_state) of
           Inl e \<Rightarrow> Inl e
         | Inr flt \<Rightarrow> Inr (deep_merge (PDict params) (PDict flt)))"

section \<open>A fragment of the date library for concrete runs\<close>

text \<open>
  Concrete runs need concrete timestamps. \<open>utc_pendulum\<close> is the date library restricted
  to UTC timestamps with whole seconds in the two spellings
  \<^verbatim>\<open>YYYY-MM-DDTHH:MM:SSZ\<close> and \<^verbatim>\<open>YYYY-MM-DDTHH:MM:SS+00:00\<close>; the second is what
  \<^verbatim>\<open>str\<close> of a UTC \<^verbatim>\<open>DateTime\<close> prints. Any other text is rejected here.
\<close>

record datetime =
  dt_year :: nat
  dt_month :: nat
  dt_day :: nat
  dt_hour :: nat
  dt_minute :: nat
  dt_second :: nat

definition digit_val :: "char \<Rightarrow> nat option" where
  "digit_val c =
     (let n = (of_char c :: nat) in if 48 \<le> n \<and> n \<le> 57 then Some (n - 48) else None)"

fun read_digits :: "nat \<Rightarrow> string \<Rightarrow> nat option" where
  "read_digits acc [] = Some acc"
| "read_digits acc (c # cs) =
     (case digit_val c of None \<Rightarrow> None | Some d \<Rightarrow> read_digits (10 * acc + d) cs)"

definition digit_char :: "nat \<Rightarrow> char" where
  "digit_char d = ''0123456789'' ! (d mod 10)"

definition pad2 :: "nat \<Rightarrow> string" where
  "pad2 n = [digit_char (n div 10), digit_char n]"

definition pad4 :: "nat \<Rightarrow> string" where
  "pad4 n = pad2 (n div 100 mod 100) @ pad2 (n mod 100)"

definition is_leap :: "nat \<Rightarrow> bool" where
  "is_leap y = (y mod 4 = 0 \<and> (0 < y mod 100 \<or> y mod 400 = 0))"

definition days_in_month :: "nat \<Rightarrow> nat \<Rightarrow> nat" where
  "days_in_month y m =
     (if m = 2 then (if is_leap y then 29 else 28)
      else if m = 4 \<or> m = 6 \<or> m = 9 \<or> m = 11 then 30 else 31)"

text \<open>Days between 1970-01-01 and a date of the proleptic Gregorian calendar.\<close>

definition days_from_civil :: "int \<Rightarrow> int \<Rightarrow> int \<Rightarrow> int" where
  "days_from_civil y m d =
     (let y' = (if m \<le> 2 then y - 1 else y);
          era = y' div 400;
          yoe = y' - era * 400;
          doy = (153 * (if 2 < m then m - 3 else m + 9) + 2) div 5 + d - 1;
          doe = yoe * 365 + yoe div 4 - yoe div 100 + doy
      in era * 146097 + doe - 719468)"

definition epoch_seconds :: "datetime \<Rightarrow> int" where
  "epoch_seconds d =
     days_from_civil (int (dt_year d)) (int (dt_month d)) (int (dt_day d)) * 86400
       + int (dt_hour d) * 3600 + int (dt_minute d) * 60 + int (dt_second d)"

definition utc_isoformat :: "datetime \<Rightarrow> string" where
  "utc_isoformat d =
     pad4 (dt_year d) @ ''-'' @ pad2 (dt_month d) @ ''-'' @ pad2 (dt_day d) @ ''T'' @
     pad2 (dt_hour d) @ '':'' @ pad2 (dt_minute d) @ '':'' @ pad2 (dt_second d) @ ''+00:00''"

definition utc_parse :: "string \<Rightarrow> datetime option" where
  "utc_parse s =
     (if (drop 19 s = ''Z'' \<or> drop 19 s = ''+00:00'') \<and>
         [s ! 4, s ! 7, s ! 10, s ! 13, s ! 16] = ''--T::''
      then
        (case (read_digits 0 (take 4 s), read_digits 0 (take 2 (drop 5 s)),
               read_digits 0 (take 2 (drop 8 s)), read_digits 0 (take 2 (drop 11 s)),
               read_digits 0 (take 2 (drop 14 s)), read_digits 0 (take 2 (drop 17 s))) of
           (Some y, Some m, Some d, Some h, Some mi, Some sec) \<Rightarrow>
             if 1 \<le> m \<and> m \<le> 12 \<and> 1 \<le> d \<and> d \<le> days_in_month y m \<and>
                h < 24 \<and> mi < 60 \<and> sec < 60
             then Some \<lparr>dt_year = y, dt_month = m, dt_day = d,
                        dt_hour = h, dt_minute = mi, dt_second = sec\<rparr>
             else None
         | _ \<Rightarrow> None)
      else None)"

definition utc_pendulum :: "datetime pendulum" where
  "utc_pendulum =
     \<lparr>parse = utc_parse, isoformat = utc_isoformat,
      int_timestamp = epoch_seconds, instant = epoch_seconds\<rparr>"

definition mk_datetime :: "nat \<Rightarrow> nat \<Rightarrow> nat \<Rightarrow> datetime" where
  "mk_datetime y m d =
     \<lparr>dt_year = y, dt_month = m, dt_day = d, dt_hour = 0, dt_minute = 0, dt_second = 0\<rparr>"

section \<open>Batched detail requests\<close>

text \<open>
  The logger: \<^verbatim>\<open>logger.info\<close> and \<^verbatim>\<open>logger.warning\<close> append a message.
\<close>

datatype log_entry = Info string | Warning string

text \<open>
  \<^verbatim>\<open>FacebookAdsApiBatch\<close> of the \<^verbatim>\<open>facebook_business\<close> SDK is a parameter of the model.
  A batch is the list of its requests (\<^verbatim>\<open>add_request\<close> appends one, \<^verbatim>\<open>len\<close> counts them,
  and a batch is true when it is not empty). \<^verbatim>\<open>batch.execute()\<close> sends the requests; for
  each request that settled it calls the request's \<^verbatim>\<open>success\<close> callback with a response
  whose \<^verbatim>\<open>json()\<close> is the payload, or its \<^verbatim>\<open>failure\<close> callback with a response whose
  \<^verbatim>\<open>body()\<close> is a text; and it returns the batch of the requests to send again, or
  \<^verbatim>\<open>None\<close>, here the empty list. So one execution is a function from the state of the
  remote side and the batch to the callbacks made, in order, the batch to retry and the new
  state of the remote side.
\<close>

datatype 'p response = Success 'p | Failure string

type_synonym ('w, 'req, 'p) batch_api =
  "'w \<Rightarrow> 'req list \<Rightarrow> 'p response list \<times> 'req list \<times> 'w"

text \<open>
  What a run acts on: the remote side, the executions made so far (each with the batch sent
  and the callbacks it made), and the log.
\<close>

record ('w, 'req, 'p) env =
  world :: 'w
  calls :: "('req list \<times> 'p response list) list"
  logged :: "log_entry list"

text \<open>The closures \<^verbatim>\<open>success\<close> and \<^verbatim>\<open>failure\<close> of \<^verbatim>\<open>execute_in_batch\<close>.\<close>

definition success :: "'p list \<Rightarrow> 'p \<Rightarrow> 'p list" where
  "success records p = records @ [p]"

definition failure_message :: "string \<Rightarrow> string" where
  "failure_message body = ''Request failed with response: '' @ body"

definition failure :: "log_entry list \<Rightarrow> string \<Rightarrow> log_entry list" where
  "failure lg body = lg @ [Warning (failure_message body)]"

fun run_callbacks ::
  "'p response list \<Rightarrow> 'p list \<times> log_entry list \<Rightarrow> 'p list \<times> log_entry list" where
  "run_callbacks [] st = st"
| "run_callbacks (Success p # rs) (records, lg) = run_callbacks rs (success records p, lg)"
| "run_callbacks (Failure b # rs) (records, lg) = run_callbacks rs (records, failure lg b)"

text \<open>One call of \<^verbatim>\<open>batch.execute()\<close> with the two closures as callbacks.\<close>

definition batch_execute ::
  "('w, 'req, 'p) batch_api \<Rightarrow> 'req list \<Rightarrow> 'p list \<times> ('w, 'req, 'p) env \<Rightarrow>
     'req list \<times> 'p list \<times> ('w, 'req, 'p) env" where
  "batch_execute api batch st =
     (case st of (records, e) \<Rightarrow>
        (case api (world e) batch of (resps, retry, w') \<Rightarrow>
           (case run_callbacks resps (records, logged e) of (records', lg') \<Rightarrow>
              (retry, records',
               e\<lparr>world := w', calls := calls e @ [(batch, resps)], logged := lg'\<rparr>))))"

definition log_retry :: "'p list \<times> ('w, 'req, 'p) env \<Rightarrow> 'p list \<times> ('w, 'req, 'p) env" where
  "log_retry st =
     (case st of (records, e) \<Rightarrow>
        (records, e\<lparr>logged := logged e @ [Info ''Retry failed requests in batch'']\<rparr>))"

text \<open>
  \<^verbatim>\<open>FBMarketingStream._execute_batch\<close>. The loop runs as long as executions return a batch
  to retry; a run that never ends is \<open>None\<close>.
\<close>

partial_function (option) execute_batch ::
  "('w, 'req, 'p) batch_api \<Rightarrow> 'req list \<Rightarrow> 'p list \<times> ('w, 'req, 'p) env \<Rightarrow>
     ('p list \<times> ('w, 'req, 'p) env) option" where
  "execute_batch api batch st =
     (if batch = [] then Some st
      else (case batch_execute api batch st of (retry, st') \<Rightarrow>
              execute_batch api retry (if retry \<noteq> [] then log_retry st' else st')))"

text \<open>
  \<^verbatim>\<open>FBMarketingStream.execute_in_batch\<close>: the loop over the pending requests, with the
  current batch and the list \<^verbatim>\<open>records\<close> that the \<^verbatim>\<open>success\<close> closure fills. The result
  is the sequence of the values yielded and the environment after the last execution.
\<close>

fun execute_in_batch_loop ::
  "('w, 'req, 'p) batch_api \<Rightarrow> 'req list \<Rightarrow> 'req list \<Rightarrow> 'p list \<Rightarrow> ('w, 'req, 'p) env \<Rightarrow>
     ('p list \<times> ('w, 'req, 'p) env) option" where
  "execute_in_batch_loop api [] api_batch records e =
     (case execute_batch api api_batch (records, e) of
        None \<Rightarrow> None
      | Some (records', e') \<Rightarrow> Some (records', e'))"
| "execute_in_batch_loop api (request # pending) api_batch records e =
     (let api_batch' = api_batch @ [request]
      in if length api_batch' = MAX_BATCH_SIZE
         then (case execute_batch api api_batch' (records, e) of
                 None \<Rightarrow> None
               | Some (records', e') \<Rightarrow>
                  (case execute_in_batch_loop api pending [] [] e' of
                     None \<Rightarrow> None
                   | Some (rest, e'') \<Rightarrow> Some (records' @ rest, e'')))
         else execute_in_batch_loop api pending api_batch' records e)"

definition execute_in_batch ::
  "('w, 'req, 'p) batch_api \<Rightarrow> 'req list \<Rightarrow> ('w, 'req, 'p) env \<Rightarrow>
     ('p list \<times> ('w, 'req, 'p) env) option" where
  "execute_in_batch api pending_requests e = execute_in_batch_loop api pending_requests [] [] e"

section \<open>Thumbnails of ad creatives\<close>

text \<open>
  \<^verbatim>\<open>requests.get(url)\<close> is a parameter of the model: from the state of the network and the
  argument it gives a response (status code, header lookup, body) or raises a
  \<^verbatim>\<open>RequestException\<close>, the base class of the exceptions of the \<^verbatim>\<open>requests\<close> library.
\<close>

datatype http_result =
    Response (status_code: nat) (headers: "string \<Rightarrow> string option") (content: string)
  | RequestException string

type_synonym 'h http_get = "'h \<Rightarrow> pyval \<Rightarrow> http_result \<times> 'h"

text \<open>\<^verbatim>\<open>base64.b64encode\<close> on a byte string (RFC 4648, with padding).\<close>

definition b64_alphabet :: string where
  "b64_alphabet = ''ABCDEFGHIJKLMNOPQRSTUVWXYZabcdefghijklmnopqrstuvwxyz0123456789+/''"

definition b64_char :: "nat \<Rightarrow> char" where
  "b64_char n = b64_alphabet ! (n mod 64)"

fun b64_groups :: "nat list \<Rightarrow> string" where
  "b64_groups [] = []"
| "b64_groups [a] = [b64_char (a div 4), b64_char (a mod 4 * 16), CHR ''='', CHR ''='']"
| "b64_groups [a, b] =
     [b64_char (a div 4), b64_char (a mod 4 * 16 + b div 16), b64_char (b mod 16 * 4), CHR ''='']"
| "b64_groups (a # b # c # rest) =
     [b64_char (a div 4), b64_char (a mod 4 * 16 + b div 16),
      b64_char (b mod 16 * 4 + c div 64), b64_char (c mod 64)] @ b64_groups rest"

definition b64encode :: "string \<Rightarrow> string" where
  "b64encode bs = b64_groups (map of_char bs)"

text \<open>The decimal digits of a status code, for \<^verbatim>\<open>repr(response)\<close>.\<close>

fun show_nat :: "nat \<Rightarrow> string" where
  "show_nat n = (if n < 10 then [digit_char n] else show_nat (n div 10) @ [digit_char n])"

declare show_nat.simps [simp del]

text \<open>
  \<^verbatim>\<open>fetch_thumbnail_data_url\<close>. The lookup of the header \<^verbatim>\<open>content-type\<close> is outside of
  what the \<^verbatim>\<open>except\<close> clause catches.
\<close>

definition fetch_thumbnail_data_url ::
  "'h http_get \<Rightarrow> pyval \<Rightarrow> 'h \<times> log_entry list \<Rightarrow> error + pyval \<times> 'h \<times> log_entry list" where
  "fetch_thumbnail_data_url get url st =
     (case st of (h, lg) \<Rightarrow>
        (case get h url of
           (Response status hdrs body, h') \<Rightarrow>
             if status = 200
             then (case hdrs ''content-type'' of
                     None \<Rightarrow> Inl (KeyError ''content-type'')
                   | Some type \<Rightarrow>
                       Inr (PStr (''data:'' @ type @ '';base64,'' @ b64encode body), h', lg))
             else Inr (PNone, h',
                       lg @ [Warning (''Got <Response ['' @ show_nat status @
                                      '']> while requesting thumbnail image.'')])
         | (RequestException exc, h') \<Rightarrow>
             Inr (PNone, h', lg @ [Warning (''Got '' @ exc @ '' while requesting thumbnail image.'')])))"

text \<open>
  An instance of \<^verbatim>\<open>AdCreatives\<close>, and \<^verbatim>\<open>AdCreatives.read_records\<close>: the loop over the
  records that \<^verbatim>\<open>super().read_records(...)\<close> yields, which are the argument \<open>records\<close>.
\<close>

record ad_creatives =
  stream :: fb_stream
  fetch_thumbnail_images :: bool

definition AdCreatives_init :: "bool \<Rightarrow> bool \<Rightarrow> ad_creatives" where
  "AdCreatives_init fetch incl =
     \<lparr>stream = FBMarketingStream_init AdCreatives_class incl, fetch_thumbnail_images = fetch\<rparr>"

fun AdCreatives_read_records ::
  "'h http_get \<Rightarrow> ad_creatives \<Rightarrow> pydict list \<Rightarrow> 'h \<times> log_entry list \<Rightarrow>
     error + pydict list \<times> 'h \<times> log_entry list" where
  "AdCreatives_read_records get s [] st = Inr ([], st)"
| "AdCreatives_read_records get s (record # records) st =
     (if fetch_thumbnail_images s
      then (case fetch_thumbnail_data_url get (dict_get record ''thumbnail_url'') st of
              Inl e \<Rightarrow> Inl e
            | Inr (v, st') \<Rightarrow>
               (case AdCreatives_read_records get s records st' of
                  Inl e \<Rightarrow> Inl e
                | Inr (out, st'') \<Rightarrow>
                    Inr (AList.update ''thumbnail_data_url'' v record # out, st'')))
      else (case AdCreatives_read_records get s records st of
              Inl e \<Rightarrow> Inl e
            | Inr (out, st'') \<Rightarrow> Inr (record # out, st'')))"

section \<open>Auxiliary facts\<close>

lemmas utc_simps = utc_pendulum_def utc_parse_def utc_isoformat_def epoch_seconds_def
  days_from_civil_def days_in_month_def is_leap_def digit_val_def digit_char_def pad2_def pad4_def
  mk_datetime_def

lemmas stream_simps = FBMarketingIncrementalStream_init_def FBMarketingStream_init_def
  Campaigns_class_def AdCreatives_class_def Ads_class_def AdSets_class_def Videos_class_def

lemma get_updated_state_eval:
  assumes "map_of latest_record cursor_field = Some (PStr rv)"
      and "pendulum_parse P (py_or (dict_get st cursor_field) (PStr rv)) = Inr a"
      and "parse P rv = Some b"
  shows "get_updated_state P s st latest_record =
           Inr [(cursor_field,
                 PStr (if include_deleted (base s) \<and>
                          \<not> truthy (dict_get_default st ''include_deleted'' (PBool False))
                       then rv else isoformat P (py_max P a b))),
                (''include_deleted'', PBool (include_deleted (base s)))]"
  using assms by (simp add: get_updated_state_def dict_item_def)

lemma get_updated_state_Inr:
  assumes "get_updated_state P s st latest_record = Inr st'"
  obtains rv a b where
    "map_of latest_record cursor_field = Some (PStr rv)"
    "pendulum_parse P (py_or (dict_get st cursor_field) (PStr rv)) = Inr a"
    "parse P rv = Some b"
proof -
  from assms obtain v where v: "map_of latest_record cursor_field = Some v"
    by (auto simp: get_updated_state_def dict_item_def split: option.splits)
  from assms v obtain a where a: "pendulum_parse P (py_or (dict_get st cursor_field) v) = Inr a"
    by (auto simp: get_updated_state_def dict_item_def Let_def split: sum.splits)
  from assms v a obtain b where b: "pendulum_parse P v = Inr b"
    by (auto simp: get_updated_state_def dict_item_def Let_def split: sum.splits)
  then obtain rv where rv: "v = PStr rv" by (cases v) auto
  with b have "parse P rv = Some b" by (auto split: option.splits)
  with v a rv that show thesis by blast
qed

lemma py_max_instant: "instant P (py_max P a b) = max (instant P a) (instant P b)"
  by (simp add: py_max_def max_def)

lemma py_max_cases: "py_max P a b = a \<or> py_max P a b = b"
  by (simp add: py_max_def)

lemma cursor_field_neq [simp]: "cursor_field \<noteq> ''include_deleted''"
  by (simp add: cursor_field_def)

section \<open>State update\<close>

text \<open>
  Claim C1. When the latest record carries a cursor value that the date library reads, and
  the prior cursor (the state's own value, or the record's value when the state holds none)
  reads as well, \<open>get_updated_state\<close> returns a state whose cursor is the text of the
  later of the two timestamps; unless the stream includes deleted records and the state does
  not say so yet, where the cursor is the record's own value, unchanged. In both cases the
  returned state carries the stream's own \<open>include_deleted\<close>.
\<close>

theorem get_updated_state_cursor:
  assumes "map_of latest_record cursor_field = Some (PStr rv)"
      and "parse P rv = Some b"
      and "prior = dict_get st cursor_field"
      and "pendulum_parse P (if truthy prior then prior else PStr rv) = Inr a"
      and "override = (include_deleted (base s) \<and>
             \<not> truthy (dict_get_default st ''include_deleted'' (PBool False)))"
  shows "get_updated_state P s st latest_record =
           Inr [(cursor_field, PStr (if override then rv else isoformat P (py_max P a b))),
                (''include_deleted'', PBool (include_deleted (base s)))]
         \<and> instant P (py_max P a b) = max (instant P a) (instant P b)
         \<and> (py_max P a b = a \<or> py_max P a b = b)"
proof -
  have "py_or (dict_get st cursor_field) (PStr rv) = (if truthy prior then prior else PStr rv)"
    by (simp add: assms(3) py_or_def)
  with assms(4) have "pendulum_parse P (py_or (dict_get st cursor_field) (PStr rv)) = Inr a"
    by (simp only:)
  from get_updated_state_eval [OF assms(1) this assms(2)] assms(5)
  have "get_updated_state P s st latest_record =
           Inr [(cursor_field, PStr (if override then rv else isoformat P (py_max P a b))),
                (''include_deleted'', PBool (include_deleted (base s)))]"
    by simp
  then show ?thesis
    using py_max_instant [of P a b] py_max_cases [of P a b] by blast
qed

theorem get_updated_state_cursor_witness:
  "get_updated_state utc_pendulum
     (FBMarketingIncrementalStream_init Campaigns_class (mk_datetime 2021 1 1) (mk_datetime 2022 1 1) False)
     [(''updated_time'', PStr ''2021-03-01T00:00:00+00:00''), (''include_deleted'', PBool False)]
     [(''updated_time'', PStr ''2021-02-01T00:00:00Z'')]
   = Inr [(''updated_time'', PStr ''2021-03-01T00:00:00+00:00''), (''include_deleted'', PBool False)]
   \<and>
   get_updated_state utc_pendulum
     (FBMarketingIncrementalStream_init Campaigns_class (mk_datetime 2021 1 1) (mk_datetime 2022 1 1) True)
     [(''updated_time'', PStr ''2021-03-01T00:00:00+00:00''), (''include_deleted'', PBool False)]
     [(''updated_time'', PStr ''2021-02-01T00:00:00Z'')]
   = Inr [(''updated_time'', PStr ''2021-02-01T00:00:00Z''), (''include_deleted'', PBool True)]"
proof -
  let ?st = "[(''updated_time'', PStr ''2021-03-01T00:00:00+00:00''), (''include_deleted'', PBool False)]"
  let ?rec = "[(''updated_time'', PStr ''2021-02-01T00:00:00Z'')]"
  have r: "map_of ?rec cursor_field = Some (PStr ''2021-02-01T00:00:00Z'')"
    by (simp add: cursor_field_def)
  have b: "parse utc_pendulum ''2021-02-01T00:00:00Z'' = Some (mk_datetime 2021 2 1)"
    by (simp add: utc_simps)
  have p: "PStr ''2021-03-01T00:00:00+00:00'' = dict_get ?st cursor_field"
    by (simp add: dict_get_def dict_get_default_def cursor_field_def)
  have a: "pendulum_parse utc_pendulum
             (if truthy (PStr ''2021-03-01T00:00:00+00:00'') then PStr ''2021-03-01T00:00:00+00:00''
              else PStr ''2021-02-01T00:00:00Z'') = Inr (mk_datetime 2021 3 1)"
    by (simp add: utc_simps)
  have m: "isoformat utc_pendulum (py_max utc_pendulum (mk_datetime 2021 3 1) (mk_datetime 2021 2 1))
             = ''2021-03-01T00:00:00+00:00''"
    by (simp add: py_max_def utc_simps)
  show ?thesis
    using get_updated_state_cursor [OF r b p a refl,
            of "FBMarketingIncrementalStream_init Campaigns_class (mk_datetime 2021 1 1) (mk_datetime 2022 1 1) False"]
          get_updated_state_cursor [OF r b p a refl,
            of "FBMarketingIncrementalStream_init Campaigns_class (mk_datetime 2021 1 1) (mk_datetime 2022 1 1) True"]
    by (simp add: m stream_simps dict_get_default_def cursor_field_def del: One_nat_def)
qed

text \<open>
  Claim C10. On a record without the cursor field \<open>get_updated_state\<close> fails with a
  \<^verbatim>\<open>KeyError\<close> for that field and returns no state.
\<close>

theorem get_updated_state_requires_cursor_field:
  assumes "map_of latest_record cursor_field = None"
  shows "get_updated_state P s st latest_record = Inl (KeyError cursor_field)"
  using assms by (simp add: get_updated_state_def dict_item_def)

theorem get_updated_state_requires_cursor_field_witness:
  "map_of [(''id'', PStr ''23'')] cursor_field = None \<and>
   get_updated_state utc_pendulum
     (FBMarketingIncrementalStream_init Campaigns_class (mk_datetime 2021 1 1) (mk_datetime 2022 1 1) False)
     [(''updated_time'', PStr ''2021-03-01T00:00:00+00:00''), (''include_deleted'', PBool False)]
     [(''id'', PStr ''23'')]
   = Inl (KeyError ''updated_time'')"
proof -
  have h: "map_of [(''id'', PStr ''23'')] cursor_field = None"
    by (simp add: cursor_field_def)
  show ?thesis
    using h get_updated_state_requires_cursor_field [OF h, of utc_pendulum]
    by (simp add: cursor_field_def)
qed

lemma dict_get_Some: "map_of d k = Some v \<Longrightarrow> dict_get d k = v"
  by (simp add: dict_get_def dict_get_default_def)

lemma dict_get_default_Some: "map_of d k = Some v \<Longrightarrow> dict_get_default d k dflt = v"
  by (simp add: dict_get_default_def)

text \<open>
  Claim C3. Let the prior state hold a cursor value \<open>C\<close> that the date library reads, and
  the stream's own \<open>include_deleted\<close> setting. For a record with the cursor field, any state
  that \<open>get_updated_state\<close> returns has as cursor the text of a timestamp that is not
  earlier than \<open>C\<close>; and a state is returned whenever the record's value reads as a
  timestamp.
\<close>

theorem get_updated_state_no_regress:
  assumes "map_of st cursor_field = Some (PStr C)" and "C \<noteq> []" and "parse P C = Some c"
      and "map_of st ''include_deleted'' = Some (PBool (include_deleted (base s)))"
      and "map_of latest_record cursor_field = Some v"
  shows "(\<forall>st'. get_updated_state P s st latest_record = Inr st' \<longrightarrow>
            (\<exists>m. map_of st' cursor_field = Some (PStr (isoformat P m)) \<and>
                 instant P c \<le> instant P m))
         \<and> (\<forall>rv b. v = PStr rv \<and> parse P rv = Some b \<longrightarrow>
              get_updated_state P s st latest_record =
                Inr [(cursor_field, PStr (isoformat P (py_max P c b))),
                     (''include_deleted'', PBool (include_deleted (base s)))])"
proof -
  have prior: "py_or (dict_get st cursor_field) w = PStr C" for w
    using assms(1,2) by (simp add: dict_get_Some py_or_def)
  have no_override:
    "\<not> (include_deleted (base s) \<and>
        \<not> truthy (dict_get_default st ''include_deleted'' (PBool False)))"
    using assms(4) by (simp add: dict_get_default_Some)
  have run: "get_updated_state P s st latest_record =
               Inr [(cursor_field, PStr (isoformat P (py_max P c b))),
                    (''include_deleted'', PBool (include_deleted (base s)))]"
    if "v = PStr rv" and "parse P rv = Some b" for rv b
  proof -
    have "map_of latest_record cursor_field = Some (PStr rv)"
      using assms(5) that(1) by simp
    moreover have "pendulum_parse P (py_or (dict_get st cursor_field) (PStr rv)) = Inr c"
      using assms(3) by (simp add: prior)
    ultimately show ?thesis
      using get_updated_state_eval [of latest_record rv P st c b s] that(2) no_override
      by simp
  qed
  have "\<exists>m. map_of st' cursor_field = Some (PStr (isoformat P m)) \<and> instant P c \<le> instant P m"
    if ok: "get_updated_state P s st latest_record = Inr st'" for st'
  proof -
    from ok obtain rv a b where
      "map_of latest_record cursor_field = Some (PStr rv)" and "parse P rv = Some b"
      by (rule get_updated_state_Inr)
    with assms(5) have "v = PStr rv" by simp
    from run [OF this \<open>parse P rv = Some b\<close>] ok
    have "st' = [(cursor_field, PStr (isoformat P (py_max P c b))),
                 (''include_deleted'', PBool (include_deleted (base s)))]"
      by simp
    then have "map_of st' cursor_field = Some (PStr (isoformat P (py_max P c b)))"
      by simp
    moreover have "instant P c \<le> instant P (py_max P c b)"
      by (simp add: py_max_instant)
    ultimately show ?thesis by blast
  qed
  with run show ?thesis by blast
qed

theorem get_updated_state_no_regress_witness:
  "get_updated_state utc_pendulum
     (FBMarketingIncrementalStream_init Ads_class (mk_datetime 2021 1 1) (mk_datetime 2022 1 1) True)
     [(''updated_time'', PStr ''2021-03-01T00:00:00+00:00''), (''include_deleted'', PBool True)]
     [(''updated_time'', PStr ''2021-02-01T00:00:00Z'')]
   = Inr [(''updated_time'', PStr ''2021-03-01T00:00:00+00:00''), (''include_deleted'', PBool True)]
   \<and> instant utc_pendulum (mk_datetime 2021 3 1) \<le> instant utc_pendulum (mk_datetime 2021 3 1)"
proof -
  let ?s = "FBMarketingIncrementalStream_init Ads_class (mk_datetime 2021 1 1) (mk_datetime 2022 1 1) True"
  let ?st = "[(''updated_time'', PStr ''2021-03-01T00:00:00+00:00''), (''include_deleted'', PBool True)]"
  let ?rec = "[(''updated_time'', PStr ''2021-02-01T00:00:00Z'')]"
  have h1: "map_of ?st cursor_field = Some (PStr ''2021-03-01T00:00:00+00:00'')"
    by (simp add: cursor_field_def)
  have h2: "''2021-03-01T00:00:00+00:00'' \<noteq> []" by simp
  have h3: "parse utc_pendulum ''2021-03-01T00:00:00+00:00'' = Some (mk_datetime 2021 3 1)"
    by (simp add: utc_simps)
  have h4: "map_of ?st ''include_deleted'' = Some (PBool (include_deleted (base ?s)))"
    by (simp add: stream_simps)
  have h5: "map_of ?rec cursor_field = Some (PStr ''2021-02-01T00:00:00Z'')"
    by (simp add: cursor_field_def)
  have b: "parse utc_pendulum ''2021-02-01T00:00:00Z'' = Some (mk_datetime 2021 2 1)"
    by (simp add: utc_simps)
  have m: "isoformat utc_pendulum (py_max utc_pendulum (mk_datetime 2021 3 1) (mk_datetime 2021 2 1))
             = ''2021-03-01T00:00:00+00:00''"
    by (simp add: py_max_def utc_simps)
  have i: "include_deleted (base ?s)" by (simp add: stream_simps)
  from get_updated_state_no_regress [OF h1 h2 h3 h4 h5] b
  have "get_updated_state utc_pendulum ?s ?st ?rec =
          Inr [(cursor_field, PStr (isoformat utc_pendulum
                 (py_max utc_pendulum (mk_datetime 2021 3 1) (mk_datetime 2021 2 1)))),
               (''include_deleted'', PBool (include_deleted (base ?s)))]"
    by blast
  then show ?thesis
    by (simp only: m i cursor_field_def) simp
qed

text \<open>
  Claim C4 says that the cursor of the emitted state is reset to the configured start date
  when the override fires. On a Campaigns stream that includes deleted records, started at
  2021-01-01, with an empty prior state and a record updated on 2021-06-01, the emitted
  cursor is the record's 2021-06-01, which is later than the start date.
\<close>

theorem get_updated_state_override_counterexample:
  "get_updated_state utc_pendulum
     (FBMarketingIncrementalStream_init Campaigns_class (mk_datetime 2021 1 1) (mk_datetime 2022 1 1) True)
     []
     [(''updated_time'', PStr ''2021-06-01T00:00:00+00:00'')]
   = Inr [(''updated_time'', PStr ''2021-06-01T00:00:00+00:00''), (''include_deleted'', PBool True)]
   \<and> isoformat utc_pendulum (mk_datetime 2021 1 1) = ''2021-01-01T00:00:00+00:00''
   \<and> parse utc_pendulum ''2021-06-01T00:00:00+00:00'' = Some (mk_datetime 2021 6 1)
   \<and> instant utc_pendulum (mk_datetime 2021 1 1) < instant utc_pendulum (mk_datetime 2021 6 1)"
  by (simp add: get_updated_state_def dict_item_def dict_get_def dict_get_default_def py_or_def
        cursor_field_def stream_simps utc_simps)

text \<open>
  Claim C4, amended. When the override fires (the stream includes deleted records and the
  prior state's \<open>include_deleted\<close> is false or absent), the cursor of any state that
  \<open>get_updated_state\<close> returns is the latest record's own cursor value; such a state is
  returned whenever the record's value and the prior cursor read as timestamps; and the
  configured start date has no influence on the result.
\<close>

theorem get_updated_state_override:
  assumes "include_deleted (base s)"
      and "\<not> truthy (dict_get_default st ''include_deleted'' (PBool False))"
      and "map_of latest_record cursor_field = Some v"
  shows "(\<forall>st'. get_updated_state P s st latest_record = Inr st' \<longrightarrow>
            map_of st' cursor_field = Some v)
         \<and> (\<forall>rv a b. v = PStr rv \<and> parse P rv = Some b \<and>
              pendulum_parse P (py_or (dict_get st cursor_field) v) = Inr a \<longrightarrow>
              get_updated_state P s st latest_record =
                Inr [(cursor_field, PStr rv), (''include_deleted'', PBool True)])
         \<and> (\<forall>d. get_updated_state P (s\<lparr>start_date := d\<rparr>) st latest_record =
                 get_updated_state P s st latest_record)"
proof -
  have run: "get_updated_state P s st latest_record =
               Inr [(cursor_field, PStr rv), (''include_deleted'', PBool True)]"
    if "v = PStr rv" and "parse P rv = Some b"
      and "pendulum_parse P (py_or (dict_get st cursor_field) v) = Inr a" for rv a b
    using get_updated_state_eval [of latest_record rv P st a b s] assms that by simp
  have "map_of st' cursor_field = Some v"
    if ok: "get_updated_state P s st latest_record = Inr st'" for st'
  proof -
    from ok obtain rv a b where r: "map_of latest_record cursor_field = Some (PStr rv)"
      and b: "parse P rv = Some b"
      and a: "pendulum_parse P (py_or (dict_get st cursor_field) (PStr rv)) = Inr a"
      by (rule get_updated_state_Inr)
    from r assms(3) have v: "v = PStr rv" by simp
    from run [OF v b] a v ok show ?thesis by simp
  qed
  moreover have "get_updated_state P (s\<lparr>start_date := d\<rparr>) st latest_record =
                 get_updated_state P s st latest_record" for d
    unfolding get_updated_state_def by (simp split: sum.splits)
  ultimately show ?thesis using run by blast
qed

theorem get_updated_state_override_witness:
  "get_updated_state utc_pendulum
     (FBMarketingIncrementalStream_init Videos_class (mk_datetime 2021 1 1) (mk_datetime 2022 1 1) True)
     [(''updated_time'', PStr ''2021-09-01T00:00:00+00:00''), (''include_deleted'', PBool False)]
     [(''updated_time'', PStr ''2021-06-01T00:00:00+00:00'')]
   = Inr [(''updated_time'', PStr ''2021-06-01T00:00:00+00:00''), (''include_deleted'', PBool True)]"
proof -
  let ?s = "FBMarketingIncrementalStream_init Videos_class (mk_datetime 2021 1 1) (mk_datetime 2022 1 1) True"
  let ?st = "[(''updated_time'', PStr ''2021-09-01T00:00:00+00:00''), (''include_deleted'', PBool False)]"
  let ?rec = "[(''updated_time'', PStr ''2021-06-01T00:00:00+00:00'')]"
  have h1: "include_deleted (base ?s)" by (simp add: stream_simps)
  have h2: "\<not> truthy (dict_get_default ?st ''include_deleted'' (PBool False))"
    by (simp add: dict_get_default_def)
  have h3: "map_of ?rec cursor_field = Some (PStr ''2021-06-01T00:00:00+00:00'')"
    by (simp add: cursor_field_def)
  have b: "parse utc_pendulum ''2021-06-01T00:00:00+00:00'' = Some (mk_datetime 2021 6 1)"
    by (simp add: utc_simps)
  have a: "pendulum_parse utc_pendulum
             (py_or (dict_get ?st cursor_field) (PStr ''2021-06-01T00:00:00+00:00''))
           = Inr (mk_datetime 2021 9 1)"
    by (simp add: py_or_def dict_get_def dict_get_default_def cursor_field_def utc_simps)
  from get_updated_state_override [OF h1 h2 h3, of utc_pendulum] b a
  have "get_updated_state utc_pendulum ?s ?st ?rec =
          Inr [(cursor_field, PStr ''2021-06-01T00:00:00+00:00''), (''include_deleted'', PBool True)]"
    by blast
  then show ?thesis by (simp only: cursor_field_def)
qed

section \<open>Request parameters\<close>

lemma request_params_eval:
  "request_params s =
     (''limit'', PInt (page_size (cls s))) #
     (if include_deleted s
      then [(''filtering'',
             PList [PDict [(''field'', PStr (format_prefix (entity_prefix (cls s)) @ ''.delivery_info'')),
                           (''operator'', PStr ''IN''),
                           (''value'', PList (map PStr filt_values))]])]
      else [])"
  by (simp add: request_params_def dict_update_def filter_all_statuses_def)

lemma state_filter_eval:
  assumes "truthy (dict_get st cursor_field) \<Longrightarrow> pendulum_parse P (dict_get st cursor_field) = Inr c"
  shows "state_filter P s st =
           Inr [(''filtering'',
                 PList [PDict [(''field'',
                                PStr (format_prefix (entity_prefix (cls (base s))) @ ''.'' @ cursor_field)),
                               (''operator'', PStr ''GREATER_THAN''),
                               (''value'',
                                PInt (int_timestamp P
                                  (if truthy (dict_get st cursor_field) \<and>
                                      \<not> (include_deleted (base s) \<and>
                                         \<not> truthy (dict_get_default st ''include_deleted'' (PBool False)))
                                   then c else start_date s)))]])]"
  using assms by (cases "truthy (dict_get st cursor_field)") (simp_all add: state_filter_def)

lemma state_filter_Inl:
  assumes "state_filter P s st = Inl e"
  shows "truthy (dict_get st cursor_field) \<and> pendulum_parse P (dict_get st cursor_field) = Inl e"
  using assms by (auto simp: state_filter_def Let_def split: if_splits sum.splits)

lemma deep_merge_params:
  "deep_merge (PDict ((''limit'', n) # (if b then [(''filtering'', PList xs)] else [])))
              (PDict [(''filtering'', PList ys)])
   = PDict [(''limit'', n), (''filtering'', PList ((if b then xs else []) @ ys))]"
  by simp

lemma inc_request_params_eval:
  assumes "state_filter P s (state_or_empty stream_state) = Inr [(''filtering'', PList ys)]"
  shows "inc_request_params P s stream_state =
           Inr (PDict [(''limit'', PInt (page_size (cls (base s)))),
                       (''filtering'',
                        PList ((if include_deleted (base s)
                                then [PDict [(''field'', PStr (format_prefix (entity_prefix (cls (base s))) @ ''.delivery_info'')),
                                             (''operator'', PStr ''IN''),
                                             (''value'', PList (map PStr filt_values))]]
                                else []) @ ys))])"
  using assms by (simp add: inc_request_params_def request_params_eval)

lemma state_or_empty_Some: "d \<noteq> [] \<Longrightarrow> state_or_empty (Some d) = d"
  by (simp add: state_or_empty_def)

lemma state_or_empty_eq:
  "state_or_empty stream_state = (case stream_state of None \<Rightarrow> [] | Some d \<Rightarrow> d)"
  by (cases stream_state) (auto simp: state_or_empty_def)

text \<open>
  Claim C2. Let \<open>st\<close> be the state handed to \<open>request_params\<close> (the empty mapping when
  none is given), with a cursor value that is absent (or false) or reads as a timestamp.
  Then the state filter is the single clause \<^verbatim>\<open>GREATER_THAN\<close> on the prefixed cursor
  field, and its value is the integer timestamp of: the start date when the state holds no
  cursor value; the start date when the stream includes deleted records and the state's
  \<open>include_deleted\<close> is false or absent; the recorded cursor value otherwise. The request
  parameters of the incremental stream are the limit and the filter clauses, this clause
  last, after the status clause of a stream that includes deleted records.
\<close>

theorem inc_request_params_threshold:
  assumes "st = (case stream_state of None \<Rightarrow> [] | Some d \<Rightarrow> d)"
      and "prior = dict_get st cursor_field"
      and "truthy prior \<longrightarrow> pendulum_parse P prior = Inr c"
      and "override = (include_deleted (base s) \<and>
             \<not> truthy (dict_get_default st ''include_deleted'' (PBool False)))"
      and "threshold = (if \<not> truthy prior then start_date s
                        else if override then start_date s else c)"
      and "clause = PDict [(''field'',
                            PStr (format_prefix (entity_prefix (cls (base s))) @ ''.'' @ cursor_field)),
                           (''operator'', PStr ''GREATER_THAN''),
                           (''value'', PInt (int_timestamp P threshold))]"
  shows "state_filter P s st = Inr [(''filtering'', PList [clause])]
         \<and> inc_request_params P s stream_state =
             Inr (PDict [(''limit'', PInt (page_size (cls (base s)))),
                         (''filtering'',
                          PList ((if include_deleted (base s)
                                  then [PDict [(''field'',
                                                PStr (format_prefix (entity_prefix (cls (base s))) @
                                                      ''.delivery_info'')),
                                               (''operator'', PStr ''IN''),
                                               (''value'', PList (map PStr filt_values))]]
                                  else []) @ [clause]))])"
proof -
  have p: "truthy (dict_get st cursor_field) \<Longrightarrow>
           pendulum_parse P (dict_get st cursor_field) = Inr c"
    using assms(2,3) by simp
  have t: "(if truthy (dict_get st cursor_field) \<and>
               \<not> (include_deleted (base s) \<and>
                  \<not> truthy (dict_get_default st ''include_deleted'' (PBool False)))
            then c else start_date s) = threshold"
    using assms(2,4,5) by simp
  have f: "state_filter P s st = Inr [(''filtering'', PList [clause])]"
    using state_filter_eval [OF p, of s] by (simp only: t assms(6))
  have "state_or_empty stream_state = st"
    by (simp only: state_or_empty_eq assms(1))
  with f have "state_filter P s (state_or_empty stream_state) = Inr [(''filtering'', PList [clause])]"
    by (simp only:)
  from inc_request_params_eval [OF this] f show ?thesis
    by (simp only: simp_thms)
qed

theorem inc_request_params_threshold_witness:
  "inc_request_params utc_pendulum
     (FBMarketingIncrementalStream_init Campaigns_class (mk_datetime 2021 1 1) (mk_datetime 2022 1 1) False)
     (Some [])
   = Inr (PDict [(''limit'', PInt 100),
                 (''filtering'',
                  PList [PDict [(''field'', PStr ''campaign.updated_time''),
                                (''operator'', PStr ''GREATER_THAN''),
                                (''value'', PInt 1609459200)]])])
   \<and>
   inc_request_params utc_pendulum
     (FBMarketingIncrementalStream_init Campaigns_class (mk_datetime 2021 1 1) (mk_datetime 2022 1 1) False)
     (Some [(''updated_time'', PStr ''2021-03-01T00:00:00+00:00''), (''include_deleted'', PBool False)])
   = Inr (PDict [(''limit'', PInt 100),
                 (''filtering'',
                  PList [PDict [(''field'', PStr ''campaign.updated_time''),
                                (''operator'', PStr ''GREATER_THAN''),
                                (''value'', PInt 1614556800)]])])
   \<and>
   inc_request_params utc_pendulum
     (FBMarketingIncrementalStream_init Campaigns_class (mk_datetime 2021 1 1) (mk_datetime 2022 1 1) True)
     (Some [(''updated_time'', PStr ''2021-03-01T00:00:00+00:00''), (''include_deleted'', PBool False)])
   = Inr (PDict [(''limit'', PInt 100),
                 (''filtering'',
                  PList [PDict [(''field'', PStr ''campaign.delivery_info''),
                                (''operator'', PStr ''IN''),
                                (''value'', PList (map PStr filt_values))],
                         PDict [(''field'', PStr ''campaign.updated_time''),
                                (''operator'', PStr ''GREATER_THAN''),
                                (''value'', PInt 1609459200)]])])
   \<and>
   inc_request_params utc_pendulum
     (FBMarketingIncrementalStream_init Campaigns_class (mk_datetime 2021 1 1) (mk_datetime 2022 1 1) True)
     (Some [(''updated_time'', PStr ''2021-03-01T00:00:00+00:00''), (''include_deleted'', PBool True)])
   = Inr (PDict [(''limit'', PInt 100),
                 (''filtering'',
                  PList [PDict [(''field'', PStr ''campaign.delivery_info''),
                                (''operator'', PStr ''IN''),
                                (''value'', PList (map PStr filt_values))],
                         PDict [(''field'', PStr ''campaign.updated_time''),
                                (''operator'', PStr ''GREATER_THAN''),
                                (''value'', PInt 1614556800)]])])"
proof -
  let ?s0 = "FBMarketingIncrementalStream_init Campaigns_class (mk_datetime 2021 1 1) (mk_datetime 2022 1 1) False"
  let ?s1 = "FBMarketingIncrementalStream_init Campaigns_class (mk_datetime 2021 1 1) (mk_datetime 2022 1 1) True"
  let ?stF = "[(''updated_time'', PStr ''2021-03-01T00:00:00+00:00''), (''include_deleted'', PBool False)]"
  let ?stT = "[(''updated_time'', PStr ''2021-03-01T00:00:00+00:00''), (''include_deleted'', PBool True)]"
  have e: "[] = (case Some ([] :: pydict) of None \<Rightarrow> [] | Some d \<Rightarrow> d)" by simp
  have sF: "?stF = (case Some ?stF of None \<Rightarrow> [] | Some d \<Rightarrow> d)"
    and sT: "?stT = (case Some ?stT of None \<Rightarrow> [] | Some d \<Rightarrow> d)"
    by simp_all
  have n: "truthy (dict_get [] cursor_field) \<longrightarrow>
           pendulum_parse utc_pendulum (dict_get [] cursor_field) = Inr (mk_datetime 2021 1 1)"
    by (simp add: dict_get_def dict_get_default_def)
  have pF: "truthy (dict_get ?stF cursor_field) \<longrightarrow>
            pendulum_parse utc_pendulum (dict_get ?stF cursor_field) = Inr (mk_datetime 2021 3 1)"
    and pT: "truthy (dict_get ?stT cursor_field) \<longrightarrow>
            pendulum_parse utc_pendulum (dict_get ?stT cursor_field) = Inr (mk_datetime 2021 3 1)"
    by (simp_all add: dict_get_def dict_get_default_def cursor_field_def utc_simps)
  have t1: "int_timestamp utc_pendulum (mk_datetime 2021 1 1) = 1609459200"
    and t3: "int_timestamp utc_pendulum (mk_datetime 2021 3 1) = 1614556800"
    by (simp_all add: utc_simps)
  have w1: "inc_request_params utc_pendulum ?s0 (Some [])
        = Inr (PDict [(''limit'', PInt 100),
                 (''filtering'',
                  PList [PDict [(''field'', PStr ''campaign.updated_time''),
                                (''operator'', PStr ''GREATER_THAN''),
                                (''value'', PInt 1609459200)]])])"
    using inc_request_params_threshold [OF e refl n refl refl refl, of ?s0]
    by (simp add: t1 stream_simps dict_get_def dict_get_default_def
          cursor_field_def format_prefix_def del: One_nat_def)
  have w2: "inc_request_params utc_pendulum ?s0 (Some ?stF)
        = Inr (PDict [(''limit'', PInt 100),
                 (''filtering'',
                  PList [PDict [(''field'', PStr ''campaign.updated_time''),
                                (''operator'', PStr ''GREATER_THAN''),
                                (''value'', PInt 1614556800)]])])"
    using inc_request_params_threshold [OF sF refl pF refl refl refl, of ?s0]
    by (simp add: t3 stream_simps dict_get_def dict_get_default_def
          cursor_field_def format_prefix_def del: One_nat_def)
  have w3: "inc_request_params utc_pendulum ?s1 (Some ?stF)
        = Inr (PDict [(''limit'', PInt 100),
                 (''filtering'',
                  PList [PDict [(''field'', PStr ''campaign.delivery_info''),
                                (''operator'', PStr ''IN''),
                                (''value'', PList (map PStr filt_values))],
                         PDict [(''field'', PStr ''campaign.updated_time''),
                                (''operator'', PStr ''GREATER_THAN''),
                                (''value'', PInt 1609459200)]])])"
    using inc_request_params_threshold [OF sF refl pF refl refl refl, of ?s1]
    by (simp add: t1 stream_simps dict_get_def dict_get_default_def
          cursor_field_def format_prefix_def del: One_nat_def)
  have w4: "inc_request_params utc_pendulum ?s1 (Some ?stT)
        = Inr (PDict [(''limit'', PInt 100),
                 (''filtering'',
                  PList [PDict [(''field'', PStr ''campaign.delivery_info''),
                                (''operator'', PStr ''IN''),
                                (''value'', PList (map PStr filt_values))],
                         PDict [(''field'', PStr ''campaign.updated_time''),
                                (''operator'', PStr ''GREATER_THAN''),
                                (''value'', PInt 1614556800)]])])"
    using inc_request_params_threshold [OF sT refl pT refl refl refl, of ?s1]
    by (simp add: t3 stream_simps dict_get_def dict_get_default_def
          cursor_field_def format_prefix_def del: One_nat_def)
  from w1 w2 w3 w4 show ?thesis by (simp only: simp_thms)
qed

text \<open>
  Claim C9. When the stream does not include deleted records while the prior state records
  \<open>include_deleted\<close> as true, and that state holds a cursor value \<open>C\<close> that reads as a
  timestamp, no override fires: the threshold of the \<^verbatim>\<open>GREATER_THAN\<close> clause is the
  recorded cursor value, and \<open>get_updated_state\<close> returns the later of the prior and the
  record's timestamps.
\<close>

theorem disabled_include_deleted_no_override:
  assumes "\<not> include_deleted (base s)"
      and "map_of st ''include_deleted'' = Some (PBool True)"
      and "map_of st cursor_field = Some (PStr C)" and "C \<noteq> []" and "parse P C = Some c"
  shows "state_filter P s st =
           Inr [(''filtering'',
                 PList [PDict [(''field'',
                                PStr (format_prefix (entity_prefix (cls (base s))) @ ''.'' @ cursor_field)),
                               (''operator'', PStr ''GREATER_THAN''),
                               (''value'', PInt (int_timestamp P c))]])]
         \<and> inc_request_params P s (Some st) =
             Inr (PDict [(''limit'', PInt (page_size (cls (base s)))),
                         (''filtering'',
                          PList [PDict [(''field'',
                                         PStr (format_prefix (entity_prefix (cls (base s))) @ ''.'' @ cursor_field)),
                                        (''operator'', PStr ''GREATER_THAN''),
                                        (''value'', PInt (int_timestamp P c))]])])
         \<and> (\<forall>latest_record rv b.
               map_of latest_record cursor_field = Some (PStr rv) \<and> parse P rv = Some b \<longrightarrow>
               get_updated_state P s st latest_record =
                 Inr [(cursor_field, PStr (isoformat P (py_max P c b))),
                      (''include_deleted'', PBool False)]
               \<and> instant P (py_max P c b) = max (instant P c) (instant P b))"
proof -
  have g: "dict_get st cursor_field = PStr C"
    using assms(3) by (rule dict_get_Some)
  have p: "truthy (dict_get st cursor_field) \<Longrightarrow>
           pendulum_parse P (dict_get st cursor_field) = Inr c"
    using assms(5) by (simp add: g)
  have f: "state_filter P s st =
           Inr [(''filtering'',
                 PList [PDict [(''field'',
                                PStr (format_prefix (entity_prefix (cls (base s))) @ ''.'' @ cursor_field)),
                               (''operator'', PStr ''GREATER_THAN''),
                               (''value'', PInt (int_timestamp P c))]])]"
    using state_filter_eval [OF p, of s] assms(1,4) by (simp add: g)
  have "st \<noteq> []" using assms(3) by auto
  then have "state_filter P s (state_or_empty (Some st)) =
           Inr [(''filtering'',
                 PList [PDict [(''field'',
                                PStr (format_prefix (entity_prefix (cls (base s))) @ ''.'' @ cursor_field)),
                               (''operator'', PStr ''GREATER_THAN''),
                               (''value'', PInt (int_timestamp P c))]])]"
    using f by (simp add: state_or_empty_Some)
  from inc_request_params_eval [OF this] assms(1)
  have r: "inc_request_params P s (Some st) =
             Inr (PDict [(''limit'', PInt (page_size (cls (base s)))),
                         (''filtering'',
                          PList [PDict [(''field'',
                                         PStr (format_prefix (entity_prefix (cls (base s))) @ ''.'' @ cursor_field)),
                                        (''operator'', PStr ''GREATER_THAN''),
                                        (''value'', PInt (int_timestamp P c))]])])"
    by simp
  have u: "get_updated_state P s st latest_record =
                 Inr [(cursor_field, PStr (isoformat P (py_max P c b))),
                      (''include_deleted'', PBool False)]"
    if "map_of latest_record cursor_field = Some (PStr rv)" and "parse P rv = Some b"
    for latest_record rv b
  proof -
    have "pendulum_parse P (py_or (dict_get st cursor_field) (PStr rv)) = Inr c"
      using assms(4,5) by (simp add: g py_or_def)
    from get_updated_state_eval [OF that(1) this that(2), of s] assms(1)
    show ?thesis by simp
  qed
  from f r u show ?thesis by (simp add: py_max_instant)
qed

theorem disabled_include_deleted_no_override_witness:
  "state_filter utc_pendulum
     (FBMarketingIncrementalStream_init AdSets_class (mk_datetime 2021 1 1) (mk_datetime 2022 1 1) False)
     [(''updated_time'', PStr ''2021-03-01T00:00:00+00:00''), (''include_deleted'', PBool True)]
   = Inr [(''filtering'',
           PList [PDict [(''field'', PStr ''adset.updated_time''),
                         (''operator'', PStr ''GREATER_THAN''),
                         (''value'', PInt 1614556800)]])]
   \<and>
   get_updated_state utc_pendulum
     (FBMarketingIncrementalStream_init AdSets_class (mk_datetime 2021 1 1) (mk_datetime 2022 1 1) False)
     [(''updated_time'', PStr ''2021-03-01T00:00:00+00:00''), (''include_deleted'', PBool True)]
     [(''updated_time'', PStr ''2021-02-01T00:00:00Z'')]
   = Inr [(''updated_time'', PStr ''2021-03-01T00:00:00+00:00''), (''include_deleted'', PBool False)]"
proof -
  let ?s = "FBMarketingIncrementalStream_init AdSets_class (mk_datetime 2021 1 1) (mk_datetime 2022 1 1) False"
  let ?st = "[(''updated_time'', PStr ''2021-03-01T00:00:00+00:00''), (''include_deleted'', PBool True)]"
  let ?rec = "[(''updated_time'', PStr ''2021-02-01T00:00:00Z'')]"
  have h1: "\<not> include_deleted (base ?s)" by (simp add: stream_simps)
  have h2: "map_of ?st ''include_deleted'' = Some (PBool True)" by simp
  have h3: "map_of ?st cursor_field = Some (PStr ''2021-03-01T00:00:00+00:00'')"
    by (simp add: cursor_field_def)
  have h4: "''2021-03-01T00:00:00+00:00'' \<noteq> []" by simp
  have h5: "parse utc_pendulum ''2021-03-01T00:00:00+00:00'' = Some (mk_datetime 2021 3 1)"
    by (simp add: utc_simps)
  have r: "map_of ?rec cursor_field = Some (PStr ''2021-02-01T00:00:00Z'')"
    by (simp add: cursor_field_def)
  have b: "parse utc_pendulum ''2021-02-01T00:00:00Z'' = Some (mk_datetime 2021 2 1)"
    by (simp add: utc_simps)
  have m: "isoformat utc_pendulum (py_max utc_pendulum (mk_datetime 2021 3 1) (mk_datetime 2021 2 1))
             = ''2021-03-01T00:00:00+00:00''"
    by (simp add: py_max_def utc_simps)
  have t3: "int_timestamp utc_pendulum (mk_datetime 2021 3 1) = 1614556800"
    by (simp add: utc_simps)
  have pf: "format_prefix (entity_prefix (cls (base ?s))) @ ''.'' @ cursor_field = ''adset.updated_time''"
    by (simp add: stream_simps format_prefix_def cursor_field_def)
  note inst = disabled_include_deleted_no_override [OF h1 h2 h3 h4 h5]
  from inst have "state_filter utc_pendulum ?s ?st
     = Inr [(''filtering'',
           PList [PDict [(''field'', PStr ''adset.updated_time''),
                         (''operator'', PStr ''GREATER_THAN''),
                         (''value'', PInt 1614556800)]])]"
    by (simp only: pf t3)
  moreover from inst r b have "get_updated_state utc_pendulum ?s ?st ?rec
     = Inr [(cursor_field, PStr (isoformat utc_pendulum
              (py_max utc_pendulum (mk_datetime 2021 3 1) (mk_datetime 2021 2 1)))),
            (''include_deleted'', PBool False)]"
    by blast
  ultimately show ?thesis by (simp only: m cursor_field_def simp_thms)
qed

text \<open>
  Claim C5. The request parameters of a stream always hold \<^verbatim>\<open>limit\<close>, the page size of
  its class (100 in every class of the connector). A stream constructed with the
  include-deleted flag on a class that supports it also gets one \<^verbatim>\<open>IN\<close> clause on the
  prefixed \<^verbatim>\<open>delivery_info\<close> field with the fourteen statuses; on a class that does not
  support it the flag is dropped and no status clause is built. An incremental stream adds
  its \<^verbatim>\<open>GREATER_THAN\<close> clause after these, and fails only on a cursor value that does not
  read as a timestamp.
\<close>

theorem request_params_limit_and_statuses:
  fixes P :: "'dt pendulum"
  defines "statuses \<equiv>
     [''active'', ''archived'', ''completed'', ''limited'', ''not_delivering'', ''deleted'',
      ''not_published'', ''pending_review'', ''permanently_deleted'', ''recently_completed'',
      ''recently_rejected'', ''rejected'', ''scheduled'', ''inactive'']"
  shows "request_params (FBMarketingStream_init c flag) =
           (''limit'', PInt (page_size c)) #
           (if enable_deleted c \<and> flag
            then [(''filtering'',
                   PList [PDict [(''field'', PStr (format_prefix (entity_prefix c) @ ''.delivery_info'')),
                                 (''operator'', PStr ''IN''),
                                 (''value'', PList (map PStr statuses))]])]
            else [])
         \<and> (case inc_request_params P (FBMarketingIncrementalStream_init c sd ed flag) stream_state of
               Inl e \<Rightarrow>
                 truthy (dict_get (state_or_empty stream_state) cursor_field) \<and>
                 pendulum_parse P (dict_get (state_or_empty stream_state) cursor_field) = Inl e
             | Inr params \<Rightarrow>
                 (\<exists>t. params =
                    PDict [(''limit'', PInt (page_size c)),
                           (''filtering'',
                            PList ((if enable_deleted c \<and> flag
                                    then [PDict [(''field'', PStr (format_prefix (entity_prefix c) @ ''.delivery_info'')),
                                                 (''operator'', PStr ''IN''),
                                                 (''value'', PList (map PStr statuses))]]
                                    else [])
                                   @ [PDict [(''field'', PStr (format_prefix (entity_prefix c) @ ''.'' @ cursor_field)),
                                             (''operator'', PStr ''GREATER_THAN''),
                                             (''value'', PInt t)]]))]))
         \<and> length statuses = 14
         \<and> page_size AdCreatives_class = 100 \<and> page_size Ads_class = 100
         \<and> page_size AdSets_class = 100 \<and> page_size Campaigns_class = 100
         \<and> page_size Videos_class = 100 \<and> page_size FBMarketingStream_class = 100"
proof -
  have fv: "filt_values = statuses"
    by (simp add: filt_values_def statuses_def)
  have base: "request_params (FBMarketingStream_init c flag) =
           (''limit'', PInt (page_size c)) #
           (if enable_deleted c \<and> flag
            then [(''filtering'',
                   PList [PDict [(''field'', PStr (format_prefix (entity_prefix c) @ ''.delivery_info'')),
                                 (''operator'', PStr ''IN''),
                                 (''value'', PList (map PStr statuses))]])]
            else [])"
    by (simp add: request_params_eval fv FBMarketingStream_init_def)
  let ?s = "FBMarketingIncrementalStream_init c sd ed flag"
  let ?st = "state_or_empty stream_state"
  have inc: "case inc_request_params P ?s stream_state of
               Inl e \<Rightarrow>
                 truthy (dict_get ?st cursor_field) \<and>
                 pendulum_parse P (dict_get ?st cursor_field) = Inl e
             | Inr params \<Rightarrow>
                 (\<exists>t. params =
                    PDict [(''limit'', PInt (page_size c)),
                           (''filtering'',
                            PList ((if enable_deleted c \<and> flag
                                    then [PDict [(''field'', PStr (format_prefix (entity_prefix c) @ ''.delivery_info'')),
                                                 (''operator'', PStr ''IN''),
                                                 (''value'', PList (map PStr statuses))]]
                                    else [])
                                   @ [PDict [(''field'', PStr (format_prefix (entity_prefix c) @ ''.'' @ cursor_field)),
                                             (''operator'', PStr ''GREATER_THAN''),
                                             (''value'', PInt t)]]))])"
  proof (cases "state_filter P ?s ?st")
    case (Inl e)
    from state_filter_Inl [OF this] Inl show ?thesis
      by (simp add: inc_request_params_def)
  next
    case (Inr flt)
    have "\<exists>c0. truthy (dict_get ?st cursor_field) \<longrightarrow>
            pendulum_parse P (dict_get ?st cursor_field) = Inr c0"
      using Inr by (cases "pendulum_parse P (dict_get ?st cursor_field)")
        (auto simp: state_filter_def)
    then obtain c0 where "truthy (dict_get ?st cursor_field) \<Longrightarrow>
            pendulum_parse P (dict_get ?st cursor_field) = Inr c0"
      by blast
    from state_filter_eval [OF this, of ?s]
    obtain t where "state_filter P ?s ?st =
       Inr [(''filtering'',
             PList [PDict [(''field'', PStr (format_prefix (entity_prefix (cls (base ?s))) @ ''.'' @ cursor_field)),
                           (''operator'', PStr ''GREATER_THAN''),
                           (''value'', PInt t)]])]"
      by blast
    from inc_request_params_eval [OF this] show ?thesis
      by (auto simp: fv FBMarketingIncrementalStream_init_def FBMarketingStream_init_def)
  qed
  have "length statuses = 14" by (simp add: statuses_def)
  with base inc show ?thesis
    by (simp add: stream_simps FBMarketingStream_class_def)
qed


theorem request_params_limit_and_statuses_witness:
  "request_params (FBMarketingStream_init AdCreatives_class True) = [(''limit'', PInt 100)]
   \<and>
   request_params (FBMarketingStream_init Ads_class True) =
     [(''limit'', PInt 100),
      (''filtering'',
       PList [PDict [(''field'', PStr ''ad.delivery_info''),
                     (''operator'', PStr ''IN''),
                     (''value'',
                      PList [PStr ''active'', PStr ''archived'', PStr ''completed'', PStr ''limited'',
                             PStr ''not_delivering'', PStr ''deleted'', PStr ''not_published'',
                             PStr ''pending_review'', PStr ''permanently_deleted'',
                             PStr ''recently_completed'', PStr ''recently_rejected'',
                             PStr ''rejected'', PStr ''scheduled'', PStr ''inactive''])]])]
   \<and>
   inc_request_params utc_pendulum
     (FBMarketingIncrementalStream_init Ads_class (mk_datetime 2021 1 1) (mk_datetime 2022 1 1) True)
     None =
     Inr (PDict
       [(''limit'', PInt 100),
        (''filtering'',
         PList [PDict [(''field'', PStr ''ad.delivery_info''),
                       (''operator'', PStr ''IN''),
                       (''value'',
                        PList [PStr ''active'', PStr ''archived'', PStr ''completed'', PStr ''limited'',
                               PStr ''not_delivering'', PStr ''deleted'', PStr ''not_published'',
                               PStr ''pending_review'', PStr ''permanently_deleted'',
                               PStr ''recently_completed'', PStr ''recently_rejected'',
                               PStr ''rejected'', PStr ''scheduled'', PStr ''inactive''])],
                PDict [(''field'', PStr ''ad.updated_time''),
                       (''operator'', PStr ''GREATER_THAN''),
                       (''value'', PInt 1609459200)]])])"
proof -
  let ?s = "FBMarketingIncrementalStream_init Ads_class (mk_datetime 2021 1 1) (mk_datetime 2022 1 1) True"
  have a: "request_params (FBMarketingStream_init AdCreatives_class True) = [(''limit'', PInt 100)]"
    using request_params_limit_and_statuses [where c = AdCreatives_class and flag = True and P = utc_pendulum]
    by (simp add: AdCreatives_class_def)
  have b: "request_params (FBMarketingStream_init Ads_class True) =
     [(''limit'', PInt 100),
      (''filtering'',
       PList [PDict [(''field'', PStr ''ad.delivery_info''),
                     (''operator'', PStr ''IN''),
                     (''value'',
                      PList [PStr ''active'', PStr ''archived'', PStr ''completed'', PStr ''limited'',
                             PStr ''not_delivering'', PStr ''deleted'', PStr ''not_published'',
                             PStr ''pending_review'', PStr ''permanently_deleted'',
                             PStr ''recently_completed'', PStr ''recently_rejected'',
                             PStr ''rejected'', PStr ''scheduled'', PStr ''inactive''])]])]"
    using request_params_limit_and_statuses [where c = Ads_class and flag = True and P = utc_pendulum]
    by (simp add: Ads_class_def format_prefix_def)
  have sf: "state_filter utc_pendulum ?s (state_or_empty None) =
          Inr [(''filtering'',
                PList [PDict [(''field'', PStr ''ad.updated_time''),
                       (''operator'', PStr ''GREATER_THAN''),
                       (''value'', PInt 1609459200)]])]"
    by (simp add: state_filter_def state_or_empty_def dict_get_def dict_get_default_def
          stream_simps format_prefix_def cursor_field_def utc_simps)
  have "inc_request_params utc_pendulum ?s None =
     Inr (deep_merge (PDict (request_params (FBMarketingStream_init Ads_class True)))
            (PDict [(''filtering'',
                PList [PDict [(''field'', PStr ''ad.updated_time''),
                       (''operator'', PStr ''GREATER_THAN''),
                       (''value'', PInt 1609459200)]])]))"
    by (simp only: inc_request_params_def sf Let_def sum.case)
       (simp add: FBMarketingIncrementalStream_init_def)
  then have "inc_request_params utc_pendulum ?s None =
     Inr (PDict
       [(''limit'', PInt 100),
        (''filtering'',
         PList [PDict [(''field'', PStr ''ad.delivery_info''),
                       (''operator'', PStr ''IN''),
                       (''value'',
                        PList [PStr ''active'', PStr ''archived'', PStr ''completed'', PStr ''limited'',
                               PStr ''not_delivering'', PStr ''deleted'', PStr ''not_published'',
                               PStr ''pending_review'', PStr ''permanently_deleted'',
                               PStr ''recently_completed'', PStr ''recently_rejected'',
                               PStr ''rejected'', PStr ''scheduled'', PStr ''inactive''])],
                PDict [(''field'', PStr ''ad.updated_time''),
                       (''operator'', PStr ''GREATER_THAN''),
                       (''value'', PInt 1609459200)]])])"
    by (simp only: b) simp
  with a b show ?thesis
    by (simp only: simp_thms)
qed

section \<open>Batched execution\<close>

lemma run_callbacks_eval:
  "run_callbacks rs (records, lg) =
     (records @ [p. Success p \<leftarrow> rs],
      lg @ [Warning (failure_message b). Failure b \<leftarrow> rs])"
proof (induction rs arbitrary: records lg)
  case Nil
  then show ?case by simp
next
  case (Cons r rs)
  then show ?case by (cases r) (simp_all add: success_def failure_def)
qed

lemma batch_execute_eval:
  assumes "api (world e) batch = (resps, retry, w')"
  shows "batch_execute api batch (records, e) =
           (retry, records @ [p. Success p \<leftarrow> resps],
            e\<lparr>world := w', calls := calls e @ [(batch, resps)],
              logged := logged e @
                [Warning (failure_message b). Failure b \<leftarrow> resps]\<rparr>)"
  using assms by (simp add: batch_execute_def run_callbacks_eval)

lemma execute_batch_Nil: "execute_batch api [] st = Some st"
  by (subst execute_batch.simps) simp

lemma execute_batch_settled:
  assumes "batch \<noteq> []" and "api (world e) batch = (resps, [], w')"
  shows "execute_batch api batch (records, e) =
           Some (records @ [p. Success p \<leftarrow> resps],
                 e\<lparr>world := w', calls := calls e @ [(batch, resps)],
                   logged := logged e @
                     [Warning (failure_message b). Failure b \<leftarrow> resps]\<rparr>)"
  using assms
  by (subst execute_batch.simps) (simp add: batch_execute_eval execute_batch_Nil)

lemma option_case_id: "(case x of None \<Rightarrow> None | Some (a, b) \<Rightarrow> Some (a, b)) = x"
  by (cases x) auto

lemma loop_fill:
  "length api_batch + length pending < MAX_BATCH_SIZE \<Longrightarrow>
   execute_in_batch_loop api pending api_batch records e =
     execute_batch api (api_batch @ pending) (records, e)"
proof (induction pending arbitrary: api_batch)
  case Nil
  then show ?case by (simp add: option_case_id)
next
  case (Cons r pending)
  from Cons.prems have "length (api_batch @ [r]) + length pending < MAX_BATCH_SIZE" by simp
  from Cons.IH [OF this] Cons.prems show ?case by simp
qed

lemma loop_full:
  "length api_batch < MAX_BATCH_SIZE \<Longrightarrow>
   MAX_BATCH_SIZE \<le> length api_batch + length pending \<Longrightarrow>
   execute_in_batch_loop api pending api_batch records e =
     (case execute_batch api (api_batch @ take (MAX_BATCH_SIZE - length api_batch) pending)
             (records, e) of
        None \<Rightarrow> None
      | Some (records', e') \<Rightarrow>
          (case execute_in_batch_loop api (drop (MAX_BATCH_SIZE - length api_batch) pending) [] [] e' of
             None \<Rightarrow> None
           | Some (rest, e'') \<Rightarrow> Some (records' @ rest, e'')))"
proof (induction pending arbitrary: api_batch)
  case Nil
  then show ?case by simp
next
  case (Cons r pending)
  show ?case
  proof (cases "length (api_batch @ [r]) = MAX_BATCH_SIZE")
    case True
    then have "MAX_BATCH_SIZE - length api_batch = Suc 0" by simp
    with True show ?thesis by (simp split: option.splits)
  next
    case False
    with Cons.prems have lt: "length (api_batch @ [r]) < MAX_BATCH_SIZE"
      and ge: "MAX_BATCH_SIZE \<le> length (api_batch @ [r]) + length pending"
      by simp_all
    from lt have d: "MAX_BATCH_SIZE - length api_batch = Suc (MAX_BATCH_SIZE - length (api_batch @ [r]))"
      by simp
    from Cons.IH [OF lt ge] False show ?thesis
      by (simp only: execute_in_batch_loop.simps Let_def if_False d take_Suc_Cons drop_Suc_Cons
            append_assoc append_Cons append_Nil)
  qed
qed

lemma execute_batch_total:
  assumes nr: "\<forall>w b. fst (snd (api w b)) = []"
  shows "\<exists>y. execute_batch api batch st = Some y"
proof (cases "batch = []")
  case True
  then show ?thesis by (simp add: execute_batch_Nil)
next
  case False
  obtain records e where st: "st = (records, e)" by (cases st)
  obtain resps retry w' where a: "api (world e) batch = (resps, retry, w')"
    by (cases "api (world e) batch") auto
  with nr have "retry = []" by (metis fst_conv snd_conv)
  with a False st show ?thesis by (simp add: execute_batch_settled)
qed

lemma loop_total:
  assumes nr: "\<forall>w b. fst (snd (api w b)) = []"
  shows "\<exists>y. execute_in_batch_loop api pending api_batch records e = Some y"
proof (induction pending arbitrary: api_batch records e)
  case Nil
  from execute_batch_total [OF nr, of api_batch "(records, e)"]
  show ?case by auto
next
  case (Cons r pending)
  show ?case
  proof (cases "length (api_batch @ [r]) = MAX_BATCH_SIZE")
    case True
    from execute_batch_total [OF nr, of "api_batch @ [r]" "(records, e)"]
    obtain records' e' where x: "execute_batch api (api_batch @ [r]) (records, e) = Some (records', e')"
      by auto
    from Cons.IH [of "[]" "[]" e']
    obtain rest e'' where "execute_in_batch_loop api pending [] [] e' = Some (rest, e'')"
      by auto
    with x True show ?thesis by simp
  next
    case False
    with Cons.IH [of "api_batch @ [r]" records e] show ?thesis by simp
  qed
qed

lemma warnings_of_failures:
  "[m. Warning m \<leftarrow> [Warning (failure_message b). Failure b \<leftarrow> rs]] =
     [failure_message b. Failure b \<leftarrow> rs]"
proof (induction rs)
  case Nil
  then show ?case by simp
next
  case (Cons x xs)
  then show ?case by (cases x) simp_all
qed

lemma execute_batch_trace:
  assumes "execute_batch api batch st = Some y"
  shows "\<exists>new. calls (snd y) = calls (snd st) @ new \<and>
           fst y = fst st @ [p. Success p \<leftarrow> concat (map snd new)] \<and>
           [m. Warning m \<leftarrow> logged (snd y)] =
             [m. Warning m \<leftarrow> logged (snd st)] @
             [failure_message b. Failure b \<leftarrow> concat (map snd new)]"
proof (rule execute_batch.raw_induct
    [where P = "\<lambda>api batch st y.
       \<exists>new. calls (snd y) = calls (snd st) @ new \<and>
           fst y = fst st @ [p. Success p \<leftarrow> concat (map snd new)] \<and>
           [m. Warning m \<leftarrow> logged (snd y)] =
             [m. Warning m \<leftarrow> logged (snd st)] @
             [failure_message b. Failure b \<leftarrow> concat (map snd new)]", OF _ assms])
  fix f api batch st y
  assume ih: "\<And>api batch st y. f api batch st = Some y \<Longrightarrow>
       \<exists>new. calls (snd y) = calls (snd st) @ new \<and>
           fst y = fst st @ [p. Success p \<leftarrow> concat (map snd new)] \<and>
           [m. Warning m \<leftarrow> logged (snd y)] =
             [m. Warning m \<leftarrow> logged (snd st)] @
             [failure_message b. Failure b \<leftarrow> concat (map snd new)]"
    and body: "(if batch = [] then Some st
                else case batch_execute api batch st of
                       (retry, st') \<Rightarrow> f api retry (if retry \<noteq> [] then log_retry st' else st'))
               = Some y"
  show "\<exists>new. calls (snd y) = calls (snd st) @ new \<and>
           fst y = fst st @ [p. Success p \<leftarrow> concat (map snd new)] \<and>
           [m. Warning m \<leftarrow> logged (snd y)] =
             [m. Warning m \<leftarrow> logged (snd st)] @
             [failure_message b. Failure b \<leftarrow> concat (map snd new)]"
  proof (cases "batch = []")
    case True
    with body have "y = st" by simp
    then show ?thesis by simp
  next
    case False
    obtain records e where st: "st = (records, e)" by (cases st)
    obtain resps retry w' where a: "api (world e) batch = (resps, retry, w')"
      by (cases "api (world e) batch") auto
    let ?e1 = "e\<lparr>world := w', calls := calls e @ [(batch, resps)],
                   logged := logged e @
                     [Warning (failure_message b). Failure b \<leftarrow> resps]\<rparr>"
    let ?st1 = "(records @ [p. Success p \<leftarrow> resps], ?e1)"
    let ?st2 = "if retry \<noteq> [] then log_retry ?st1 else ?st1"
    from body False st a have step: "f api retry ?st2 = Some y"
      by (simp add: batch_execute_eval)
    from ih [OF step] obtain new where
      c: "calls (snd y) = calls (snd ?st2) @ new" and
      r: "fst y = fst ?st2 @ [p. Success p \<leftarrow> concat (map snd new)]" and
      l: "[m. Warning m \<leftarrow> logged (snd y)] =
             [m. Warning m \<leftarrow> logged (snd ?st2)] @
             [failure_message b. Failure b \<leftarrow> concat (map snd new)]"
      by blast
    have c2: "calls (snd ?st2) = calls e @ [(batch, resps)]"
      by (simp add: log_retry_def)
    have r2: "fst ?st2 = records @ [p. Success p \<leftarrow> resps]"
      by (simp add: log_retry_def)
    have l2: "[m. Warning m \<leftarrow> logged (snd ?st2)] =
                [m. Warning m \<leftarrow> logged e] @ [failure_message b. Failure b \<leftarrow> resps]"
      using warnings_of_failures [of resps] by (simp add: log_retry_def)
    have "calls (snd y) = calls (snd st) @ ((batch, resps) # new)"
      using c c2 st by simp
    moreover have "fst y = fst st @ [p. Success p \<leftarrow> concat (map snd ((batch, resps) # new))]"
      using r r2 st by simp
    moreover have "[m. Warning m \<leftarrow> logged (snd y)] =
             [m. Warning m \<leftarrow> logged (snd st)] @
             [failure_message b. Failure b \<leftarrow> concat (map snd ((batch, resps) # new))]"
      using l l2 st by simp
    ultimately show ?thesis by blast
  qed
qed

lemma loop_trace:
  assumes "execute_in_batch_loop api pending api_batch records e = Some (out, e')"
  shows "\<exists>new. calls e' = calls e @ new \<and>
           out = records @ [p. Success p \<leftarrow> concat (map snd new)] \<and>
           [m. Warning m \<leftarrow> logged e'] =
             [m. Warning m \<leftarrow> logged e] @
             [failure_message b. Failure b \<leftarrow> concat (map snd new)]"
  using assms
proof (induction pending arbitrary: api_batch records e out e')
  case Nil
  then have "execute_batch api api_batch (records, e) = Some (out, e')"
    by (simp add: option_case_id)
  from execute_batch_trace [OF this] show ?case by simp
next
  case (Cons r pending)
  show ?case
  proof (cases "length (api_batch @ [r]) = MAX_BATCH_SIZE")
    case True
    with Cons.prems obtain records1 e1 rest where
      x: "execute_batch api (api_batch @ [r]) (records, e) = Some (records1, e1)" and
      y: "execute_in_batch_loop api pending [] [] e1 = Some (rest, e')" and
      o: "out = records1 @ rest"
      by (auto split: option.splits)
    from execute_batch_trace [OF x] obtain new1 where
      n1: "calls e1 = calls e @ new1"
          "records1 = records @ [p. Success p \<leftarrow> concat (map snd new1)]"
          "[m. Warning m \<leftarrow> logged e1] =
             [m. Warning m \<leftarrow> logged e] @
             [failure_message b. Failure b \<leftarrow> concat (map snd new1)]"
      by auto
    from Cons.IH [OF y] obtain new2 where
      n2: "calls e' = calls e1 @ new2"
          "rest = [] @ [p. Success p \<leftarrow> concat (map snd new2)]"
          "[m. Warning m \<leftarrow> logged e'] =
             [m. Warning m \<leftarrow> logged e1] @
             [failure_message b. Failure b \<leftarrow> concat (map snd new2)]"
      by blast
    have "calls e' = calls e @ (new1 @ new2)" using n1(1) n2(1) by simp
    moreover have "out = records @ [p. Success p \<leftarrow> concat (map snd (new1 @ new2))]"
      using o n1(2) n2(2) by simp
    moreover have "[m. Warning m \<leftarrow> logged e'] =
             [m. Warning m \<leftarrow> logged e] @
             [failure_message b. Failure b \<leftarrow> concat (map snd (new1 @ new2))]"
      using n1(3) n2(3) by simp
    ultimately show ?thesis by blast
  next
    case False
    with Cons.prems have "execute_in_batch_loop api pending (api_batch @ [r]) records e = Some (out, e')"
      by simp
    from Cons.IH [OF this] show ?thesis .
  qed
qed

lemma payloads_of_successes: "[p. Success p \<leftarrow> map Success xs] = xs"
  by (induction xs) simp_all

text \<open>
  Claim C6. With 120 pending requests, the batch size 50 and a transport that never returns
  a batch to retry, \<open>execute_in_batch\<close> makes exactly three executions, of the first 50
  requests, the next 50 and the last 20, each on the state the one before left; it returns,
  and what it yields is the payloads of the successful requests of the first execution, then
  of the second, then of the third.
\<close>

theorem execute_in_batch_three_batches:
  fixes pending :: "'req list"
  assumes "length pending = 120"
      and "\<forall>w b. fst (snd (api w b)) = []"
  shows "\<exists>r1 w1 r2 w2 r3 w3.
           api (world e) (take 50 pending) = (r1, [], w1) \<and>
           api w1 (take 50 (drop 50 pending)) = (r2, [], w2) \<and>
           api w2 (drop 100 pending) = (r3, [], w3) \<and>
           execute_in_batch api pending e =
             Some ([p. Success p \<leftarrow> r1] @ [p. Success p \<leftarrow> r2] @ [p. Success p \<leftarrow> r3],
                   e\<lparr>world := w3,
                     calls := calls e @ [(take 50 pending, r1),
                                         (take 50 (drop 50 pending), r2),
                                         (drop 100 pending, r3)],
                     logged := logged e @ [Warning (failure_message b). Failure b \<leftarrow> r1]
                                 @ [Warning (failure_message b). Failure b \<leftarrow> r2]
                                 @ [Warning (failure_message b). Failure b \<leftarrow> r3]\<rparr>) \<and>
           map length [take 50 pending, take 50 (drop 50 pending), drop 100 pending] = [50, 50, 20]"
proof -
  let ?b1 = "take 50 pending" and ?b2 = "take 50 (drop 50 pending)" and ?b3 = "drop 100 pending"
  have settle: "\<exists>r w'. api w b = (r, [], w')" for w b
    using assms(2) by (cases "api w b") (metis fst_conv snd_conv)
  obtain r1 w1 where a1: "api (world e) ?b1 = (r1, [], w1)" using settle by blast
  obtain r2 w2 where a2: "api w1 ?b2 = (r2, [], w2)" using settle by blast
  obtain r3 w3 where a3: "api w2 ?b3 = (r3, [], w3)" using settle by blast
  let ?e1 = "e\<lparr>world := w1, calls := calls e @ [(?b1, r1)],
                logged := logged e @ [Warning (failure_message b). Failure b \<leftarrow> r1]\<rparr>"
  let ?e2 = "?e1\<lparr>world := w2, calls := calls ?e1 @ [(?b2, r2)],
                logged := logged ?e1 @ [Warning (failure_message b). Failure b \<leftarrow> r2]\<rparr>"
  let ?e3 = "?e2\<lparr>world := w3, calls := calls ?e2 @ [(?b3, r3)],
                logged := logged ?e2 @ [Warning (failure_message b). Failure b \<leftarrow> r3]\<rparr>"
  have n1: "?b1 \<noteq> []" and n2: "?b2 \<noteq> []" and n3: "?b3 \<noteq> []"
    using assms(1) by auto
  have x1: "execute_batch api ?b1 ([], e) = Some ([p. Success p \<leftarrow> r1], ?e1)"
    using execute_batch_settled [where api = api and e = e and records = "[]", OF n1 a1]
    by simp
  have x2: "execute_batch api ?b2 ([], ?e1) = Some ([p. Success p \<leftarrow> r2], ?e2)"
    using execute_batch_settled [where api = api and e = ?e1 and records = "[]" and batch = ?b2
            and resps = r2 and w' = w2] n2 a2
    by simp
  have x3: "execute_batch api ?b3 ([], ?e2) = Some ([p. Success p \<leftarrow> r3], ?e3)"
    using execute_batch_settled [where api = api and e = ?e2 and records = "[]" and batch = ?b3
            and resps = r3 and w' = w3] n3 a3
    by simp
  have p0: "length ([] :: 'req list) < MAX_BATCH_SIZE"
    by (simp add: MAX_BATCH_SIZE_def)
  have p1: "MAX_BATCH_SIZE \<le> length ([] :: 'req list) + length pending"
    and p2: "MAX_BATCH_SIZE \<le> length ([] :: 'req list) + length (drop 50 pending)"
    and p3: "length ([] :: 'req list) + length (drop 100 pending) < MAX_BATCH_SIZE"
    using assms(1) by (simp_all add: MAX_BATCH_SIZE_def)
  have k: "MAX_BATCH_SIZE - length ([] :: 'req list) = 50"
    by (simp add: MAX_BATCH_SIZE_def)
  have d2: "drop 50 (drop 50 pending) = drop 100 pending"
    by simp
  have l3: "execute_in_batch_loop api (drop 100 pending) [] [] ?e2 = Some ([p. Success p \<leftarrow> r3], ?e3)"
    by (simp only: loop_fill [OF p3] append_Nil x3)
  have l2: "execute_in_batch_loop api (drop 50 pending) [] [] ?e1
              = Some ([p. Success p \<leftarrow> r2] @ [p. Success p \<leftarrow> r3], ?e3)"
    by (simp only: loop_full [OF p0 p2] k d2 append_Nil x2 l3 option.case prod.case)
  have l1: "execute_in_batch_loop api pending [] [] e
              = Some ([p. Success p \<leftarrow> r1] @ [p. Success p \<leftarrow> r2] @ [p. Success p \<leftarrow> r3], ?e3)"
    by (simp only: loop_full [OF p0 p1] k append_Nil x1 l2 option.case prod.case)
  have main: "execute_in_batch api pending e =
          Some ([p. Success p \<leftarrow> r1] @ [p. Success p \<leftarrow> r2] @ [p. Success p \<leftarrow> r3],
                e\<lparr>world := w3,
                  calls := calls e @ [(?b1, r1), (?b2, r2), (?b3, r3)],
                  logged := logged e @ [Warning (failure_message b). Failure b \<leftarrow> r1]
                              @ [Warning (failure_message b). Failure b \<leftarrow> r2]
                              @ [Warning (failure_message b). Failure b \<leftarrow> r3]\<rparr>)"
    by (simp add: execute_in_batch_def l1)
  have lens: "map length [?b1, ?b2, ?b3] = [50, 50, 20]"
    using assms(1) by simp
  show ?thesis
    apply (rule exI [of _ r1], rule exI [of _ w1], rule exI [of _ r2])
    apply (rule exI [of _ w2], rule exI [of _ r3], rule exI [of _ w3])
    using a1 a2 a3 main lens by (simp only: simp_thms)
qed

theorem execute_in_batch_three_batches_witness:
  "execute_in_batch (\<lambda>w b. (map Success b, [], Suc w)) [0..<120]
     \<lparr>world = 0, calls = [], logged = []\<rparr>
   = Some ([0..<120],
           \<lparr>world = 3,
            calls = [([0..<50], map Success [0..<50]),
                     ([50..<100], map Success [50..<100]),
                     ([100..<120], map Success [100..<120])],
            logged = []\<rparr>)
   \<and> map length [[0..<50], [50..<100], [100..<120]] = [50, 50, 20]"
proof -
  let ?api = "\<lambda>(w::nat) (b::nat list). (map Success b, [] :: nat list, Suc w)"
  let ?e = "\<lparr>world = 0::nat, calls = [] :: (nat list \<times> nat response list) list, logged = []\<rparr>"
  have h1: "length [0..<120] = 120" by simp
  have h2: "\<forall>w b. fst (snd (?api w b)) = []" by simp
  have t1: "take 50 [0..<120] = [0..<50]" and t2: "take 50 (drop 50 [0..<120]) = [50..<100]"
    and t3: "drop 100 [0..<120] = [100..<120]"
    by code_simp+
  have j: "[0..<50] @ [50..<100] @ [100..<120] = [0..<120]"
    by code_simp
  have f: "[Warning (failure_message b). Failure b \<leftarrow> map Success xs] = []" for xs :: "nat list"
    by (induction xs) simp_all
  from execute_in_batch_three_batches [OF h1 h2, of ?e]
  obtain r1 w1 r2 w2 r3 w3 where
    a: "?api (world ?e) (take 50 [0..<120]) = (r1, [], w1)"
       "?api w1 (take 50 (drop 50 [0..<120])) = (r2, [], w2)"
       "?api w2 (drop 100 [0..<120]) = (r3, [], w3)"
    and x: "execute_in_batch ?api [0..<120] ?e =
             Some ([p. Success p \<leftarrow> r1] @ [p. Success p \<leftarrow> r2] @ [p. Success p \<leftarrow> r3],
                   ?e\<lparr>world := w3,
                     calls := calls ?e @ [(take 50 [0..<120], r1),
                                         (take 50 (drop 50 [0..<120]), r2),
                                         (drop 100 [0..<120], r3)],
                     logged := logged ?e @ [Warning (failure_message b). Failure b \<leftarrow> r1]
                                 @ [Warning (failure_message b). Failure b \<leftarrow> r2]
                                 @ [Warning (failure_message b). Failure b \<leftarrow> r3]\<rparr>)"
    by blast
  from a have r: "r1 = map Success [0..<50]" "r2 = map Success [50..<100]"
    "r3 = map Success [100..<120]" and w: "w3 = 3"
    by (auto simp only: t1 t2 t3 prod.inject env.simps numeral_3_eq_3)
  show ?thesis
    unfolding x r w t1 t2 t3 payloads_of_successes f j
    by simp
qed

text \<open>
  Claim C7. Whenever \<open>execute_in_batch\<close> returns, what it yields is exactly the payloads
  handed to the \<open>success\<close> callback, in the order of the executions: a response handed to
  the \<open>failure\<close> callback adds no record. Its only trace is one warning in the log, with
  the body of the response; the result of the run is never an error. With a transport that
  settles every batch in one execution the run does return.
\<close>

theorem execute_in_batch_drops_failures:
  "(\<forall>out e'. execute_in_batch api pending e = Some (out, e') \<longrightarrow>
      (\<exists>new. calls e' = calls e @ new \<and>
             out = [p. Success p \<leftarrow> concat (map snd new)] \<and>
             [m. Warning m \<leftarrow> logged e'] =
               [m. Warning m \<leftarrow> logged e] @
               [failure_message b. Failure b \<leftarrow> concat (map snd new)]))
   \<and> ((\<forall>w b. fst (snd (api w b)) = []) \<longrightarrow>
        (\<exists>out e'. execute_in_batch api pending e = Some (out, e')))"
proof -
  have "\<exists>new. calls e' = calls e @ new \<and>
             out = [p. Success p \<leftarrow> concat (map snd new)] \<and>
             [m. Warning m \<leftarrow> logged e'] =
               [m. Warning m \<leftarrow> logged e] @
               [failure_message b. Failure b \<leftarrow> concat (map snd new)]"
    if "execute_in_batch api pending e = Some (out, e')" for out e'
    using loop_trace [of api pending "[]" "[]" e out e'] that
    by (simp add: execute_in_batch_def)
  moreover have "\<exists>out e'. execute_in_batch api pending e = Some (out, e')"
    if "\<forall>w b. fst (snd (api w b)) = []"
    using loop_total [OF that, of pending "[]" "[]" e] by (simp add: execute_in_batch_def)
  ultimately show ?thesis by blast
qed

theorem execute_in_batch_drops_failures_witness:
  "execute_in_batch
     (\<lambda>w b. (map (\<lambda>r. if r = ''bad'' then Failure ''error 100'' else Success r) b, [], Suc w))
     [''a'', ''bad'', ''c''] \<lparr>world = 0, calls = [], logged = []\<rparr>
   = Some ([''a'', ''c''],
           \<lparr>world = 1,
            calls = [([''a'', ''bad'', ''c''], [Success ''a'', Failure ''error 100'', Success ''c''])],
            logged = [Warning ''Request failed with response: error 100'']\<rparr>)"
proof -
  let ?api = "\<lambda>(w::nat) b. (map (\<lambda>r. if r = ''bad'' then Failure ''error 100'' else Success r) b,
                             [] :: string list, Suc w)"
  let ?e = "\<lparr>world = 0::nat, calls = [] :: (string list \<times> string response list) list, logged = []\<rparr>"
  have "\<forall>w b. fst (snd (?api w b)) = []" by simp
  with execute_in_batch_drops_failures [of ?api "[''a'', ''bad'', ''c'']" ?e]
  obtain out e' where x: "execute_in_batch ?api [''a'', ''bad'', ''c''] ?e = Some (out, e')"
    by blast
  have s: "execute_batch ?api [''a'', ''bad'', ''c''] ([], ?e) =
     Some ([''a'', ''c''],
           \<lparr>world = 1,
            calls = [([''a'', ''bad'', ''c''], [Success ''a'', Failure ''error 100'', Success ''c''])],
            logged = [Warning ''Request failed with response: error 100'']\<rparr>)"
  proof -
    have n: "[''a'', ''bad'', ''c''] \<noteq> []" by simp
    have a: "?api (world ?e) [''a'', ''bad'', ''c''] =
               ([Success ''a'', Failure ''error 100'', Success ''c''], [], Suc 0)"
      by simp
    from execute_batch_settled [where api = ?api and e = ?e and records = "[]", OF n a] show ?thesis
      by (simp add: failure_message_def)
  qed
  show ?thesis
    using x by (simp add: execute_in_batch_def MAX_BATCH_SIZE_def s)
qed

section \<open>Thumbnail enrichment\<close>

lemma fetch_thumbnail_data_url_failure:
  assumes "get h url = (r, h')"
      and "case r of Response status hdrs body \<Rightarrow> status \<noteq> 200 | RequestException exc \<Rightarrow> True"
  shows "\<exists>m. fetch_thumbnail_data_url get url (h, lg) = Inr (PNone, h', lg @ [Warning m])"
  using assms by (cases r) (simp_all add: fetch_thumbnail_data_url_def)

lemma read_records_all_fail:
  assumes "fetch_thumbnail_images s"
      and "\<forall>h u. case fst (get h u) of
                    Response status hdrs body \<Rightarrow> status \<noteq> 200
                  | RequestException exc \<Rightarrow> True"
  shows "\<exists>st'. AdCreatives_read_records get s rcds st =
                 Inr (map (AList.update ''thumbnail_data_url'' PNone) rcds, st')"
proof (induction rcds arbitrary: st)
  case Nil
  then show ?case by simp
next
  case (Cons rcd rcds)
  obtain h lg where st: "st = (h, lg)" by (cases st)
  obtain r h' where g: "get h (dict_get rcd ''thumbnail_url'') = (r, h')"
    by (cases "get h (dict_get rcd ''thumbnail_url'')")
  from assms(2) g have bad: "case r of Response status hdrs body \<Rightarrow> status \<noteq> 200
                              | RequestException exc \<Rightarrow> True"
    by (metis fst_conv)
  from fetch_thumbnail_data_url_failure
         [where get = get and h = h and url = "dict_get rcd ''thumbnail_url''" and lg = lg, OF g bad]
  obtain m where f: "fetch_thumbnail_data_url get (dict_get rcd ''thumbnail_url'') (h, lg)
                       = Inr (PNone, h', lg @ [Warning m])"
    by blast
  from Cons.IH [of "(h', lg @ [Warning m])"] obtain st' where
    "AdCreatives_read_records get s rcds (h', lg @ [Warning m]) =
       Inr (map (AList.update ''thumbnail_data_url'' PNone) rcds, st')"
    by blast
  with f st assms(1) show ?case by simp
qed

text \<open>
  The outcomes of \<open>fetch_thumbnail_data_url\<close>, one for each answer of the request.
\<close>

lemma fetch_thumbnail_data_url_cases:
  "(get h url = (RequestException exc, h') \<longrightarrow>
      fetch_thumbnail_data_url get url (h, lg) =
        Inr (PNone, h', lg @ [Warning (''Got '' @ exc @ '' while requesting thumbnail image.'')]))
   \<and> (get h url = (Response status hdrs body, h') \<and> status \<noteq> 200 \<longrightarrow>
        fetch_thumbnail_data_url get url (h, lg) =
          Inr (PNone, h',
               lg @ [Warning (''Got <Response ['' @ show_nat status @
                              '']> while requesting thumbnail image.'')]))
   \<and> (get h url = (Response 200 hdrs body, h') \<and> hdrs ''content-type'' = Some type \<longrightarrow>
        fetch_thumbnail_data_url get url (h, lg) =
          Inr (PStr (''data:'' @ type @ '';base64,'' @ b64encode body), h', lg))
   \<and> (get h url = (Response 200 hdrs body, h') \<and> hdrs ''content-type'' = None \<longrightarrow>
        fetch_thumbnail_data_url get url (h, lg) = Inl (KeyError ''content-type''))"
  by (simp add: fetch_thumbnail_data_url_def)

text \<open>
  \<open>AdCreatives_read_records\<close> on one record and on two lists in a row: the records are
  handled one after the other, and the first error ends the run.
\<close>

lemma AdCreatives_read_records_single:
  "fetch_thumbnail_images s \<Longrightarrow>
   AdCreatives_read_records get s [rcd] st =
     (case fetch_thumbnail_data_url get (dict_get rcd ''thumbnail_url'') st of
        Inl e \<Rightarrow> Inl e
      | Inr (v, st') \<Rightarrow> Inr ([AList.update ''thumbnail_data_url'' v rcd], st'))"
  by (simp split: sum.splits)

lemma AdCreatives_read_records_append:
  "AdCreatives_read_records get s (xs @ ys) st =
     (case AdCreatives_read_records get s xs st of
        Inl e \<Rightarrow> Inl e
      | Inr (out1, st1) \<Rightarrow>
         (case AdCreatives_read_records get s ys st1 of
            Inl e \<Rightarrow> Inl e
          | Inr (out2, st2) \<Rightarrow> Inr (out1 @ out2, st2)))"
proof (induction xs arbitrary: st)
  case Nil
  then show ?case by (simp split: sum.splits)
next
  case (Cons x xs)
  then show ?case by (simp split: sum.splits)
qed

lemma AdCreatives_read_records_yields_all:
  assumes "AdCreatives_read_records get s rcds st = Inr (out, st')"
      and "fetch_thumbnail_images s"
  shows "list_all2 (\<lambda>out_rcd rcd. \<exists>v. out_rcd = AList.update ''thumbnail_data_url'' v rcd \<and>
                                       map_of out_rcd ''thumbnail_data_url'' = Some v)
           out rcds"
  using assms
proof (induction rcds arbitrary: st out)
  case Nil
  then show ?case by simp
next
  case (Cons x xs)
  from Cons.prems obtain v st1 rest where
    "AdCreatives_read_records get s xs st1 = Inr (rest, st')"
    and o: "out = AList.update ''thumbnail_data_url'' v x # rest"
    by (auto split: sum.splits)
  from Cons.IH [OF this(1) Cons.prems(2)] o show ?case
    by (auto simp: update_conv')
qed

text \<open>
  Claim C8 says that a thumbnail request never makes \<open>read_records\<close> fail: a request that
  fails leaves \<^verbatim>\<open>thumbnail_data_url\<close> null, a successful one gives the data URI, and the
  record is yielded in both cases. The code does so for a \<^verbatim>\<open>RequestException\<close>, for a
  status other than 200 and for a status 200 with a \<^verbatim>\<open>content-type\<close> header. On an answer
  with status 200 and no such header the lookup of the header raises \<^verbatim>\<open>KeyError\<close>, which
  the \<^verbatim>\<open>except\<close> clause does not catch. In the run below the first thumbnail is fetched,
  the second request answers 404 and the third answers 200 without the header: the fetch of
  the third fails, and so does \<open>read_records\<close> on the three records, which yields both
  records when the third is left out.
\<close>

theorem thumbnail_without_content_type_raises:
  "fetch_thumbnail_data_url
     (\<lambda>h u. (if u = PStr ''https://img/1.png''
               then Response 200 (map_of [(''content-type'', ''image/png'')]) ''Man''
               else if u = PStr ''https://img/3.png'' then Response 200 (\<lambda>k. None) ''Man''
               else Response 404 (\<lambda>k. None) [], Suc h))
     (PStr ''https://img/3.png'') (0, [])
   = Inl (KeyError ''content-type'')
   \<and>
   AdCreatives_read_records
     (\<lambda>h u. (if u = PStr ''https://img/1.png''
               then Response 200 (map_of [(''content-type'', ''image/png'')]) ''Man''
               else if u = PStr ''https://img/3.png'' then Response 200 (\<lambda>k. None) ''Man''
               else Response 404 (\<lambda>k. None) [], Suc h))
     (AdCreatives_init True False)
     [[(''id'', PStr ''1''), (''thumbnail_url'', PStr ''https://img/1.png'')],
      [(''id'', PStr ''2''), (''thumbnail_url'', PStr ''https://img/2.png'')],
      [(''id'', PStr ''3''), (''thumbnail_url'', PStr ''https://img/3.png'')]]
     (0, [])
   = Inl (KeyError ''content-type'')
   \<and>
   AdCreatives_read_records
     (\<lambda>h u. (if u = PStr ''https://img/1.png''
               then Response 200 (map_of [(''content-type'', ''image/png'')]) ''Man''
               else if u = PStr ''https://img/3.png'' then Response 200 (\<lambda>k. None) ''Man''
               else Response 404 (\<lambda>k. None) [], Suc h))
     (AdCreatives_init True False)
     [[(''id'', PStr ''1''), (''thumbnail_url'', PStr ''https://img/1.png'')],
      [(''id'', PStr ''2''), (''thumbnail_url'', PStr ''https://img/2.png'')]]
     (0, [])
   = Inr ([[(''id'', PStr ''1''), (''thumbnail_url'', PStr ''https://img/1.png''),
            (''thumbnail_data_url'', PStr ''data:image/png;base64,TWFu'')],
           [(''id'', PStr ''2''), (''thumbnail_url'', PStr ''https://img/2.png''),
            (''thumbnail_data_url'', PNone)]],
          Suc (Suc 0), [Warning ''Got <Response [404]> while requesting thumbnail image.''])"
proof -
  let ?get = "\<lambda>(h::nat) u. (if u = PStr ''https://img/1.png''
               then Response 200 (map_of [(''content-type'', ''image/png'')]) ''Man''
               else if u = PStr ''https://img/3.png'' then Response 200 (\<lambda>k. None) ''Man''
               else Response 404 (\<lambda>k. None) [], Suc h)"
  let ?s = "AdCreatives_init True False"
  let ?r1 = "[(''id'', PStr ''1''), (''thumbnail_url'', PStr ''https://img/1.png'')]"
  let ?r2 = "[(''id'', PStr ''2''), (''thumbnail_url'', PStr ''https://img/2.png'')]"
  let ?r3 = "[(''id'', PStr ''3''), (''thumbnail_url'', PStr ''https://img/3.png'')]"
  let ?w = "Warning ''Got <Response [404]> while requesting thumbnail image.''"
  have n: "show_nat 404 = ''404''"
    by (simp add: show_nat.simps [of 404] show_nat.simps [of 40] show_nat.simps [of 4] digit_char_def)
  have b: "b64encode ''Man'' = ''TWFu''"
    by (simp add: b64encode_def b64_char_def b64_alphabet_def)
  have s: "fetch_thumbnail_images ?s"
    by (simp add: AdCreatives_init_def)
  have f1: "fetch_thumbnail_data_url ?get (PStr ''https://img/1.png'') (h, lg) =
              Inr (PStr ''data:image/png;base64,TWFu'', Suc h, lg)" for h lg
    by (simp add: fetch_thumbnail_data_url_def b)
  have f2: "fetch_thumbnail_data_url ?get (PStr ''https://img/2.png'') (h, lg) =
              Inr (PNone, Suc h, lg @ [?w])" for h lg
    by (simp add: fetch_thumbnail_data_url_def n)
  have f3: "fetch_thumbnail_data_url ?get (PStr ''https://img/3.png'') (h, lg) =
              Inl (KeyError ''content-type'')" for h lg
    by (simp add: fetch_thumbnail_data_url_def)
  have u: "dict_get ?r1 ''thumbnail_url'' = PStr ''https://img/1.png''"
    "dict_get ?r2 ''thumbnail_url'' = PStr ''https://img/2.png''"
    "dict_get ?r3 ''thumbnail_url'' = PStr ''https://img/3.png''"
    by (simp_all add: dict_get_def dict_get_default_def)
  have two: "AdCreatives_read_records ?get ?s [?r1, ?r2] (0, []) =
               Inr ([AList.update ''thumbnail_data_url'' (PStr ''data:image/png;base64,TWFu'') ?r1,
                     AList.update ''thumbnail_data_url'' PNone ?r2],
                    Suc (Suc 0), [?w])"
    by (simp only: AdCreatives_read_records.simps s if_True u f1 f2 sum.case prod.case append_Nil)
  have three: "AdCreatives_read_records ?get ?s [?r1, ?r2, ?r3] (0, []) = Inl (KeyError ''content-type'')"
    by (simp only: AdCreatives_read_records.simps s if_True u f1 f2 f3 sum.case prod.case append_Nil)
  from two have two': "AdCreatives_read_records ?get ?s [?r1, ?r2] (0, []) =
     Inr ([[(''id'', PStr ''1''), (''thumbnail_url'', PStr ''https://img/1.png''),
            (''thumbnail_data_url'', PStr ''data:image/png;base64,TWFu'')],
           [(''id'', PStr ''2''), (''thumbnail_url'', PStr ''https://img/2.png''),
            (''thumbnail_data_url'', PNone)]],
          Suc (Suc 0), [?w])"
    by simp
  from f3 [of 0 "[]"] three two' show ?thesis
    by (simp only: simp_thms)
qed


end
